theory Spec2Isabelle
  imports Main "HOL-Library.AList"
begin

section \<open>The query compiler (tiny-graphql-query-compiler/src/index.ts)\<close>

text \<open>
  A JavaScript object used as a dictionary is modelled by the list of its own enumerable
  properties in the order \<^verbatim>\<open>Object.entries\<close> lists them. For an object that the code
  fills, that is the order in which the keys were first written, as long as no key is an
  array index (\<^verbatim>\<open>Object.entries\<close> lists those first); the names of GraphQL fields,
  arguments and variables are not. What such an object inherits from its prototype is
  modelled where the code reads it: see \<open>truthy_at\<close> and \<open>js_set\<close>.

  A JavaScript value that is not a Variable is \<open>JNull\<close>, \<open>JUndefined\<close> or \<open>JLit t s\<close>, where
  \<open>t\<close> says whether the value is truthy and \<open>s\<close> is the text \<^verbatim>\<open>JSON.stringify\<close> gives
  for it: the compiler tests such a value for \<^verbatim>\<open>null\<close> and \<^verbatim>\<open>undefined\<close>, reads it as a
  condition, or renders it, and nothing else.
\<close>

datatype jsval = JNull | JUndefined | JLit bool string

definition truthy_jsval :: "jsval \<Rightarrow> bool" where
  "truthy_jsval v = (case v of JNull \<Rightarrow> False | JUndefined \<Rightarrow> False | JLit t s \<Rightarrow> t)"

text \<open>\<^verbatim>\<open>class Variable { constructor(readonly type, readonly name?, readonly value?) }\<close>.
  A name that is not given is \<^verbatim>\<open>undefined\<close>, here \<open>None\<close>.\<close>

record Variable =
  vtype :: string
  vname :: "string option"
  vvalue :: jsval

text \<open>\<^verbatim>\<open>present() { return this.value != null; }\<close>\<close>

definition present :: "Variable \<Rightarrow> bool" where
  "present v = (vvalue v \<noteq> JNull \<and> vvalue v \<noteq> JUndefined)"

text \<open>An argument of a field call: a \<open>Variable\<close> instance, or any other value.\<close>

datatype argval = AVar Variable | AVal jsval

text \<open>
  \<^verbatim>\<open>interface FieldSelection { [key: string]: boolean | null | undefined | FieldCall | FieldSelection }\<close>
  and \<^verbatim>\<open>class FieldCall { constructor(readonly args, readonly subselection?) }\<close>.
\<close>

datatype fieldval =
    FBool bool
  | FNull
  | FUndefined
  | FCall "(string \<times> argval) list" "(string \<times> fieldval) list option"
  | FSel "(string \<times> fieldval) list"

type_synonym FieldSelection = "(string \<times> fieldval) list"

datatype optype = Query | Subscription | Mutation

record BuilderOperation =
  op_type :: optype
  op_fields :: FieldSelection
  op_name :: "string option"
  op_directives :: "string list option"

text \<open>
  What is thrown: a \<^verbatim>\<open>TypeError\<close> of the runtime (\<^verbatim>\<open>Object.entries(null)\<close>, a property
  written on a value that is not an object), or \<^verbatim>\<open>Error(message)\<close> thrown by the code.
\<close>

datatype error = TypeError | Error string

subsection \<open>Strings\<close>

text \<open>\<^verbatim>\<open>Array.prototype.join\<close>\<close>

fun join :: "string \<Rightarrow> string list \<Rightarrow> string" where
  "join sep [] = []"
| "join sep [x] = x"
| "join sep (x # y # ys) = x @ sep @ join sep (y # ys)"

text \<open>The decimal text of a counter, as a template literal renders a number (one below
  \<^verbatim>\<open>1e21\<close>, which a counter of variables is).\<close>

definition is_decimal :: "char \<Rightarrow> bool" where
  "is_decimal c = (c \<in> set ''0123456789'')"

definition digit_char :: "nat \<Rightarrow> char" where
  "digit_char d = ''0123456789'' ! d"

fun digits :: "nat \<Rightarrow> string" where
  "digits n = (if n < 10 then [digit_char n] else digits (n div 10) @ [digit_char (n mod 10)])"

declare digits.simps [simp del]

subsection \<open>compileFieldSelection\<close>

text \<open>Line 19 and lines 21 to 23: the entries of \<^verbatim>\<open>value.args\<close> that are rendered.\<close>

definition call_entries :: "(string \<times> argval) list \<Rightarrow> bool \<Rightarrow> (string \<times> argval) list" where
  "call_entries args onlyPresentVariableValues =
     (let entries = filter (\<lambda>(_, v). v \<noteq> AVal JNull \<and> v \<noteq> AVal JUndefined) args
      in if onlyPresentVariableValues
         then filter (\<lambda>(_, v). case v of AVar x \<Rightarrow> present x | AVal _ \<Rightarrow> True) entries
         else entries)"

definition JSON_stringify :: "jsval \<Rightarrow> string" where
  "JSON_stringify v = (case v of JNull \<Rightarrow> ''null'' | JUndefined \<Rightarrow> ''undefined'' | JLit t s \<Rightarrow> s)"

text \<open>Line 26: one rendered argument.\<close>

definition arg_signature :: "string \<times> argval \<Rightarrow> string" where
  "arg_signature = (\<lambda>(name, v). name @ '': '' @
     (case v of
        AVar x \<Rightarrow> ''$'' @ (case vname x of Some n \<Rightarrow> n | None \<Rightarrow> name)
      | AVal j \<Rightarrow> JSON_stringify j))"

text \<open>Lines 18 to 30: the text \<^verbatim>\<open>args\<close> of a field call.\<close>

definition call_args :: "(string \<times> argval) list \<Rightarrow> bool \<Rightarrow> string" where
  "call_args args onlyPresentVariableValues =
     (let signatures = map arg_signature (call_entries args onlyPresentVariableValues)
      in if length signatures > 0 then ''('' @ join '', '' signatures @ '')'' else [])"

text \<open>
  Lines 41 and 42: \<^verbatim>\<open>.filter((value) => !!value).map((line) => "  " + line)\<close>. An element
  of the flat-mapped array is \<^verbatim>\<open>false\<close> (\<open>None\<close>) or a string; \<^verbatim>\<open>false\<close> and the empty
  string are the falsy ones.
\<close>

definition truthy_lines :: "string option list \<Rightarrow> string list" where
  "truthy_lines ls = map the (filter (\<lambda>l. l \<noteq> None \<and> l \<noteq> Some []) ls)"

definition indent :: "string \<Rightarrow> string" where
  "indent line = ''  '' @ line"

text \<open>
  Lines 12 to 43. \<open>flatMap_fields\<close> is the \<^verbatim>\<open>flatMap\<close> over \<^verbatim>\<open>Object.entries(fields)\<close> and
  \<open>compile_field\<close> its callback. A field whose value is \<^verbatim>\<open>null\<close> or \<^verbatim>\<open>undefined\<close> is
  neither a boolean nor a FieldCall, so it reaches the last branch, whose recursive call
  evaluates \<^verbatim>\<open>Object.entries\<close> of it and throws.
\<close>

fun compileFieldSelection :: "FieldSelection \<Rightarrow> bool \<Rightarrow> error + string list"
  and flatMap_fields :: "FieldSelection \<Rightarrow> bool \<Rightarrow> error + string option list"
  and compile_field :: "string \<Rightarrow> fieldval \<Rightarrow> bool \<Rightarrow> error + string option list"
where
  "compileFieldSelection sel opv =
     (case flatMap_fields sel opv of
        Inl e \<Rightarrow> Inl e
      | Inr ls \<Rightarrow> Inr (map indent (truthy_lines ls)))"
| "flatMap_fields [] opv = Inr []"
| "flatMap_fields ((field, v) # rest) opv =
     (case compile_field field v opv of
        Inl e \<Rightarrow> Inl e
      | Inr ls \<Rightarrow>
          (case flatMap_fields rest opv of
             Inl e \<Rightarrow> Inl e
           | Inr ls' \<Rightarrow> Inr (ls @ ls')))"
| "compile_field field (FBool b) opv = Inr [if b then Some field else None]"
| "compile_field field (FCall args subselection) opv =
     (case subselection of
        Some sub \<Rightarrow>
          (case compileFieldSelection sub opv of
             Inl e \<Rightarrow> Inl e
           | Inr ls \<Rightarrow> Inr ([Some (field @ call_args args opv @ '' {'')] @ map Some ls @ [Some ''}'']))
      | None \<Rightarrow> Inr [Some (field @ call_args args opv)])"
| "compile_field field FNull opv = Inl TypeError"
| "compile_field field FUndefined opv = Inl TypeError"
| "compile_field field (FSel sub) opv =
     (case compileFieldSelection sub opv of
        Inl e \<Rightarrow> Inl e
      | Inr ls \<Rightarrow> Inr ([Some (field @ '' {'')] @ map Some ls @ [Some ''}'']))"

subsection \<open>The object that extractVariables fills\<close>

text \<open>
  Line 46: \<^verbatim>\<open>const variables: Record<string, Variable> = {}\<close>, a plain object. Besides its
  own properties, which are Variables, it has its prototype: \<^verbatim>\<open>Object.prototype\<close> at
  first (\<open>None\<close>), or the Variable that an assignment to \<^verbatim>\<open>variables["__proto__"]\<close> has put
  there.
\<close>

record VariablesObject =
  vo_entries :: "(string \<times> Variable) list"
  vo_proto :: "Variable option"

definition empty_object :: VariablesObject where
  "empty_object = \<lparr>vo_entries = [], vo_proto = None\<rparr>"

text \<open>The names of the properties of \<^verbatim>\<open>Object.prototype\<close>. Each of them is a function,
  but for \<^verbatim>\<open>__proto__\<close>, which reads as the prototype of the object: all are truthy.\<close>

definition Object_prototype_names :: "string list" where
  "Object_prototype_names =
     [''constructor'', ''__defineGetter__'', ''__defineSetter__'', ''hasOwnProperty'',
      ''__lookupGetter__'', ''__lookupSetter__'', ''isPrototypeOf'', ''propertyIsEnumerable'',
      ''toString'', ''valueOf'', ''__proto__'', ''toLocaleString'']"

text \<open>
  Whether a name that is not an own property is found truthy along the prototype chain.
  When the prototype is a Variable, its own properties \<^verbatim>\<open>type\<close>, \<^verbatim>\<open>name\<close> and \<^verbatim>\<open>value\<close>
  come first, then \<^verbatim>\<open>constructor\<close> and \<^verbatim>\<open>present\<close> of \<^verbatim>\<open>Variable.prototype\<close>, then
  \<^verbatim>\<open>Object.prototype\<close>.
\<close>

definition inherited_truthy :: "Variable option \<Rightarrow> string \<Rightarrow> bool" where
  "inherited_truthy proto k =
     (case proto of
        None \<Rightarrow> k \<in> set Object_prototype_names
      | Some v \<Rightarrow>
          if k = ''type'' then vtype v \<noteq> []
          else if k = ''name'' then (case vname v of Some n \<Rightarrow> n \<noteq> [] | None \<Rightarrow> False)
          else if k = ''value'' then truthy_jsval (vvalue v)
          else k = ''present'' \<or> k \<in> set Object_prototype_names)"

text \<open>\<^verbatim>\<open>variables[name]\<close> read as a condition (lines 49 and 50): an own property is a
  Variable object, which is truthy; a name that is not an own property is looked up
  along the prototype chain.\<close>

definition truthy_at :: "VariablesObject \<Rightarrow> string \<Rightarrow> bool" where
  "truthy_at variables k =
     (k \<in> set (map fst (vo_entries variables)) \<or> inherited_truthy (vo_proto variables) k)"

text \<open>
  \<^verbatim>\<open>variables[k] = value\<close> (line 62, and each property that \<^verbatim>\<open>Object.assign\<close> writes): the
  entry of an existing key is replaced where it stands and a new key is appended, which
  is \<open>AList.update\<close>. The key \<^verbatim>\<open>__proto__\<close> is the exception: the object has no own
  property of that name (it starts empty and no assignment makes one), so the write
  reaches the setter of \<^verbatim>\<open>Object.prototype\<close>, which makes the value, an object, the
  prototype and adds no own property.
\<close>

definition set_variable :: "VariablesObject \<Rightarrow> string \<Rightarrow> Variable \<Rightarrow> VariablesObject" where
  "set_variable variables k v =
     (if k = ''__proto__'' then variables\<lparr>vo_proto := Some v\<rparr>
      else variables\<lparr>vo_entries := AList.update k v (vo_entries variables)\<rparr>)"

text \<open>
  \<^verbatim>\<open>acc[k] = value\<close> on an object whose prototype nothing reads afterwards (line 133, and
  the objects that \<^verbatim>\<open>useAction\<close> fills): as above, and a write to \<^verbatim>\<open>__proto__\<close> adds no own
  property unless the object has one of that name (a computed key of an object literal
  makes one).
\<close>

definition js_set :: "(string \<times> 'a) list \<Rightarrow> string \<Rightarrow> 'a \<Rightarrow> (string \<times> 'a) list" where
  "js_set obj k v =
     (if k = ''__proto__'' \<and> k \<notin> set (map fst obj) then obj else AList.update k v obj)"

subsection \<open>extractVariables\<close>

lemma digit_char_inj: "a < 10 \<Longrightarrow> b < 10 \<Longrightarrow> digit_char a = digit_char b \<Longrightarrow> a = b"
proof -
  assume a: "a < 10" and b: "b < 10" and e: "digit_char a = digit_char b"
  have "distinct ''0123456789''" by simp
  moreover from a b have "a < length ''0123456789''" "b < length ''0123456789''" by simp_all
  ultimately show "a = b"
    using e unfolding digit_char_def by (simp only: nth_eq_iff_index_eq)
qed

lemma digit_char_decimal: "d < 10 \<Longrightarrow> is_decimal (digit_char d)"
  unfolding digit_char_def is_decimal_def by (rule nth_mem) simp

lemma digits_nonempty: "digits n \<noteq> []"
  by (subst digits.simps) simp

lemma digits_inj: "digits m = digits n \<Longrightarrow> m = n"
proof (induction m arbitrary: n rule: digits.induct)
  case (1 m)
  show ?case
  proof (cases "m < 10")
    case small_m: True
    show ?thesis
    proof (cases "n < 10")
      case True
      with small_m "1.prems" show ?thesis
        by (simp add: digits.simps [of m] digits.simps [of n] digit_char_inj)
    next
      case False
      with small_m "1.prems" digits_nonempty [of "n div 10"] show ?thesis
        by (simp add: digits.simps [of m] digits.simps [of n])
    qed
  next
    case big_m: False
    show ?thesis
    proof (cases "n < 10")
      case True
      with big_m "1.prems" digits_nonempty [of "m div 10"] show ?thesis
        by (simp add: digits.simps [of m] digits.simps [of n])
    next
      case False
      with big_m "1.prems" have e: "digits (m div 10) = digits (n div 10)"
        and d: "digit_char (m mod 10) = digit_char (n mod 10)"
        by (simp_all add: digits.simps [of m] digits.simps [of n])
      from "1.IH" [OF big_m e] have "m div 10 = n div 10" .
      moreover from d have "m mod 10 = n mod 10"
        by (intro digit_char_inj) simp_all
      ultimately show ?thesis
        by (metis div_mult_mod_eq)
    qed
  qed
qed

lemma finite_suffixed: "finite S \<Longrightarrow> finite {k. name @ digits k \<in> S}"
proof -
  assume fin: "finite S"
  have "inj_on (\<lambda>k. name @ digits k) {k. name @ digits k \<in> S}"
    by (auto simp: inj_on_def dest: digits_inj)
  moreover have "(\<lambda>k. name @ digits k) ` {k. name @ digits k \<in> S} \<subseteq> S"
    by auto
  ultimately show ?thesis
    using fin by (meson finite_imageD finite_subset)
qed

lemma inherited_truthy_finite:
  "inherited_truthy proto k \<Longrightarrow>
   k \<in> set ([''type'', ''name'', ''value'', ''present''] @ Object_prototype_names)"
  by (auto simp: inherited_truthy_def split: option.splits if_splits)

lemma finite_truthy_suffixed: "finite {k. truthy_at variables (name @ digits k)}"
proof -
  let ?S = "set (map fst (vo_entries variables)) \<union>
            set ([''type'', ''name'', ''value'', ''present''] @ Object_prototype_names)"
  have "{k. truthy_at variables (name @ digits k)} \<subseteq> {k. name @ digits k \<in> ?S}"
    using inherited_truthy_finite unfolding truthy_at_def by blast
  moreover have "finite {k. name @ digits k \<in> ?S}"
    by (rule finite_suffixed) simp
  ultimately show ?thesis
    by (rule finite_subset)
qed

text \<open>Lines 50 to 52: \<^verbatim>\<open>while (variables[`${name}${count}`]) { count++; }\<close>\<close>

function next_count :: "VariablesObject \<Rightarrow> string \<Rightarrow> nat \<Rightarrow> nat" where
  "next_count variables name count =
     (if truthy_at variables (name @ digits count) then next_count variables name (Suc count) else count)"
  by pat_completeness auto
termination
proof (relation "measure (\<lambda>(variables, name, count).
         card {k. count \<le> k \<and> truthy_at variables (name @ digits k)})")
  show "wf (measure (\<lambda>(variables, name, count).
         card {k. count \<le> k \<and> truthy_at variables (name @ digits k)}))"
    by simp
next
  fix variables name count
  assume h: "truthy_at variables (name @ digits count)"
  let ?S = "\<lambda>c. {k. c \<le> k \<and> truthy_at variables (name @ digits k)}"
  have fin: "finite (?S count)"
    by (rule finite_subset [OF _ finite_truthy_suffixed [of variables name]]) auto
  have "count \<in> ?S count" "count \<notin> ?S (Suc count)"
    using h by simp_all
  moreover have "?S (Suc count) \<subseteq> ?S count"
    by auto
  ultimately have "?S (Suc count) \<subset> ?S count"
    by blast
  with fin have "card (?S (Suc count)) < card (?S count)"
    by (rule psubset_card_mono)
  then show "((variables, name, Suc count), (variables, name, count))
      \<in> measure (\<lambda>(variables, name, count).
         card {k. count \<le> k \<and> truthy_at variables (name @ digits k)})"
    by simp
qed

declare next_count.simps [simp del]

text \<open>Lines 47 to 56.\<close>

definition nextName :: "VariablesObject \<Rightarrow> string \<Rightarrow> string" where
  "nextName variables name =
     (if truthy_at variables name then name @ digits (next_count variables name 1) else name)"

text \<open>Lines 60 to 64: the loop over the arguments of one field call. \<^verbatim>\<open>value.name ?? nextName(name)\<close>
  calls \<open>nextName\<close> only for a Variable without a name.\<close>

fun extract_args :: "(string \<times> argval) list \<Rightarrow> VariablesObject \<Rightarrow> VariablesObject" where
  "extract_args [] variables = variables"
| "extract_args ((name, AVar x) # rest) variables =
     extract_args rest
       (set_variable variables (case vname x of Some n \<Rightarrow> n | None \<Rightarrow> nextName variables name) x)"
| "extract_args ((name, AVal j) # rest) variables = extract_args rest variables"

text \<open>\<^verbatim>\<open>Object.assign(target, source)\<close>: the own properties of the source, in its order,
  written to the target.\<close>

definition Object_assign :: "VariablesObject \<Rightarrow> (string \<times> Variable) list \<Rightarrow> VariablesObject" where
  "Object_assign target source = fold (\<lambda>(k, v) acc. set_variable acc k v) source target"

text \<open>
  Lines 45 to 79. \<open>extract_fields\<close> is the loop of lines 58 to 68 over
  \<^verbatim>\<open>Object.entries(fields)\<close>, with \<^verbatim>\<open>variables\<close> as its state. The recursive call of line 66
  passes no second argument, so it runs with \<^verbatim>\<open>onlyPresentVariableValues = false\<close> and
  starts from an empty \<^verbatim>\<open>variables\<close> of its own. The sub-selection of a field call is
  not visited. Lines 70 to 76 delete the own properties whose Variable has
  \<^verbatim>\<open>value == null\<close>; the others keep their order. The result is the list of the own
  properties of the returned object: every caller reads these and nothing else of it
  (\<^verbatim>\<open>Object.assign\<close>, \<^verbatim>\<open>Object.keys\<close>, \<^verbatim>\<open>Object.entries\<close>).
\<close>

fun extractVariables :: "FieldSelection \<Rightarrow> bool \<Rightarrow> (string \<times> Variable) list"
  and extract_fields :: "FieldSelection \<Rightarrow> VariablesObject \<Rightarrow> VariablesObject"
where
  "extractVariables sel opv =
     (let variables = extract_fields sel empty_object
      in if opv
         then filter (\<lambda>(name, variable). \<not> (vvalue variable = JNull \<or> vvalue variable = JUndefined))
                (vo_entries variables)
         else vo_entries variables)"
| "extract_fields [] variables = variables"
| "extract_fields ((field, FCall args subselection) # rest) variables =
     extract_fields rest (extract_args args variables)"
| "extract_fields ((field, FSel sub) # rest) variables =
     extract_fields rest (Object_assign variables (extractVariables sub False))"
| "extract_fields ((field, FBool b) # rest) variables = extract_fields rest variables"
| "extract_fields ((field, FNull) # rest) variables = extract_fields rest variables"
| "extract_fields ((field, FUndefined) # rest) variables = extract_fields rest variables"

subsection \<open>compileVariables, compile, compileWithVariableValues\<close>

text \<open>Lines 85 to 87: one declaration of the signature.\<close>

definition var_signature :: "string \<times> Variable \<Rightarrow> string" where
  "var_signature = (\<lambda>(name, variable). ''$'' @ name @ '': '' @ vtype variable)"

text \<open>Lines 81 to 90.\<close>

definition compileVariables :: "BuilderOperation \<Rightarrow> bool \<Rightarrow> string" where
  "compileVariables operation opv =
     (let variables = extractVariables (op_fields operation) opv
      in if length (map fst variables) = 0 then []
         else ''('' @ join '', '' (map var_signature variables) @ '')'')"

definition optype_text :: "optype \<Rightarrow> string" where
  "optype_text t = (case t of Query \<Rightarrow> ''query'' | Subscription \<Rightarrow> ''subscription'' | Mutation \<Rightarrow> ''mutation'')"

definition newline :: string where
  "newline = [CHR 0x0A]"

text \<open>Line 119: the text of the directives. Line 121: \<^verbatim>\<open>operation.name ?? ""\<close>.\<close>

definition directives_text :: "BuilderOperation \<Rightarrow> string" where
  "directives_text operation =
     (case op_directives operation of
        Some ds \<Rightarrow> if length ds > 0 then '' '' @ join '' '' ds else []
      | None \<Rightarrow> [])"

definition name_text :: "BuilderOperation \<Rightarrow> string" where
  "name_text operation = (case op_name operation of Some n \<Rightarrow> n | None \<Rightarrow> [])"

text \<open>Lines 117 to 124. The signature is computed first; it raises nothing.\<close>

definition compile :: "BuilderOperation \<Rightarrow> bool \<Rightarrow> error + string" where
  "compile operation opv =
     (let signature = compileVariables operation opv;
          directives = directives_text operation
      in case compileFieldSelection (op_fields operation) opv of
           Inl e \<Rightarrow> Inl e
         | Inr lines \<Rightarrow>
             Inr (optype_text (op_type operation) @ '' '' @ name_text operation @
                  signature @ directives @ '' {'' @ newline @ join newline lines @ newline @ ''}''))"

record CompiledQuery =
  cq_query :: string
  cq_variables :: "(string \<times> jsval) list"

text \<open>Lines 127 to 137. The \<^verbatim>\<open>reduce\<close> writes \<^verbatim>\<open>acc[name] = variable.value\<close> for each entry.\<close>

definition compileWithVariableValues :: "BuilderOperation \<Rightarrow> error + CompiledQuery" where
  "compileWithVariableValues operation =
     (let variables = extractVariables (op_fields operation) True
      in case compile operation True of
           Inl e \<Rightarrow> Inl e
         | Inr q \<Rightarrow>
             Inr \<lparr> cq_query = q,
                   cq_variables = fold (\<lambda>(name, variable) acc. js_set acc name (vvalue variable)) variables [] \<rparr>)"

section \<open>Running an action (useAction and processResult)\<close>

text \<open>
  The hook \<^verbatim>\<open>useAction\<close> and \<^verbatim>\<open>processResult\<close> of the React bindings; in the sources they
  are lines 229 to 348 of \<^verbatim>\<open>packages/api-client-core/spec/mockUrqlClient.ts\<close>, and the line
  numbers below are those.
\<close>

text \<open>
  The variables of an action call and the payload of a response are JSON-like values; an
  object is the list of its own properties, as above. Numbers are integers here; nothing
  below computes with them.
\<close>

datatype json =
    JsNull
  | JsUndefined
  | JsBool bool
  | JsNum int
  | JsStr string
  | JsArr "json list"
  | JsObj "(string \<times> json) list"

text \<open>The value read as a condition (\<^verbatim>\<open>if (x)\<close>, \<^verbatim>\<open>x && y\<close>).\<close>

fun truthy :: "json \<Rightarrow> bool" where
  "truthy JsNull = False"
| "truthy JsUndefined = False"
| "truthy (JsBool b) = b"
| "truthy (JsNum n) = (n \<noteq> 0)"
| "truthy (JsStr s) = (s \<noteq> [])"
| "truthy (JsArr xs) = True"
| "truthy (JsObj fs) = True"

text \<open>\<^verbatim>\<open>typeof x === "object" && x !== null\<close>\<close>

fun is_object :: "json \<Rightarrow> bool" where
  "is_object (JsArr xs) = True"
| "is_object (JsObj fs) = True"
| "is_object j = False"

text \<open>\<^verbatim>\<open>x[key]\<close> for a name \<^verbatim>\<open>key\<close> on a value that is not \<^verbatim>\<open>null\<close> or \<^verbatim>\<open>undefined\<close>. The names
  read below are those of fields of a payload; an array or a string has no property of
  such a name.\<close>

fun js_prop :: "json \<Rightarrow> string \<Rightarrow> json" where
  "js_prop (JsObj fs) key = (case map_of fs key of Some v \<Rightarrow> v | None \<Rightarrow> JsUndefined)"
| "js_prop j key = JsUndefined"

text \<open>\<^verbatim>\<open>x[0]\<close> on a truthy value.\<close>

fun first_element :: "json \<Rightarrow> json" where
  "first_element (JsArr []) = JsUndefined"
| "first_element (JsArr (x # xs)) = x"
| "first_element (JsObj fs) = js_prop (JsObj fs) ''0''"
| "first_element (JsStr s) = (case s of [] \<Rightarrow> JsUndefined | c # cs \<Rightarrow> JsStr [c])"
| "first_element j = JsUndefined"

text \<open>The type of a declared variable of an action: \<^verbatim>\<open>action.variables[name].type\<close>.\<close>

record VariableOptions =
  var_type :: string

text \<open>The fields of the \<^verbatim>\<open>ActionFunction\<close> descriptor that \<^verbatim>\<open>useAction\<close> reads.\<close>

record ActionFunction =
  operationName :: string
  modelApiIdentifier :: string
  modelSelectionField :: string
  namespace :: "string option"
  action_variables :: "(string \<times> VariableOptions) list"
  paramOnlyVariables :: "string list option"
  hasAmbiguousIdentifier :: bool
  acceptsModelInput :: bool
  hasCreateOrUpdateEffect :: bool
  hasReturnType :: bool

text \<open>\<^verbatim>\<open>action.paramOnlyVariables?.includes(key)\<close>\<close>

definition is_param_only :: "ActionFunction \<Rightarrow> string \<Rightarrow> bool" where
  "is_param_only action key =
     (case paramOnlyVariables action of None \<Rightarrow> False | Some ps \<Rightarrow> key \<in> set ps)"

text \<open>Line 281: \<^verbatim>\<open>Object.entries(action.variables).find(([key, value]) => key === "id" && value.type === "GadgetID")\<close>\<close>

definition idVariable :: "ActionFunction \<Rightarrow> (string \<times> VariableOptions) option" where
  "idVariable action =
     find (\<lambda>(key, v). key = ''id'' \<and> var_type v = ''GadgetID'') (action_variables action)"

text \<open>Lines 274 to 278: the condition under which the callback throws.\<close>

definition invalid_arguments :: "ActionFunction \<Rightarrow> (string \<times> json) list \<Rightarrow> bool" where
  "invalid_arguments action variables =
     (hasAmbiguousIdentifier action \<and>
      list_ex (\<lambda>key. \<not> is_param_only action key \<and> key \<noteq> modelApiIdentifier action) (map fst variables))"

text \<open>
  Lines 285 to 287: the variables are already nested under the model identifier. The
  variables of a call are a plain object, so \<^verbatim>\<open>in\<close> and \<^verbatim>\<open>variables[...]\<close> also find the
  properties of \<^verbatim>\<open>Object.prototype\<close> where the object has no own property of the name.
  Those are functions, whose \<^verbatim>\<open>typeof\<close> is not \<^verbatim>\<open>"object"\<close>, but for \<^verbatim>\<open>__proto__\<close>, which
  reads as \<^verbatim>\<open>Object.prototype\<close> itself.
\<close>

definition already_nested :: "ActionFunction \<Rightarrow> (string \<times> json) list \<Rightarrow> bool" where
  "already_nested action variables =
     (case map_of variables (modelApiIdentifier action) of
        None \<Rightarrow> modelApiIdentifier action = ''__proto__''
      | Some v \<Rightarrow> is_object v)"

text \<open>
  Lines 292 to 304: the loop over \<^verbatim>\<open>Object.entries(variables)\<close>, with \<^verbatim>\<open>newVariables\<close> as
  its state, which starts as \<^verbatim>\<open>{ [action.modelApiIdentifier]: {} }\<close>.
  \<^verbatim>\<open>newVariables[action.modelApiIdentifier][key] = value\<close> writes a property of the object
  that stands under the model identifier; the module is strict code, so the write throws
  a TypeError when a value that is not an object stands there. That value is the empty
  object of line 292, filled by the loop, unless a param-only variable or the \<^verbatim>\<open>id\<close> is
  named like the model: then the loop has put the caller's value there, which in this
  branch is not an object (so no array stands there either).
\<close>

fun wrap_variables ::
  "ActionFunction \<Rightarrow> (string \<times> json) list \<Rightarrow> (string \<times> json) list \<Rightarrow> error + (string \<times> json) list" where
  "wrap_variables action [] newVariables = Inr newVariables"
| "wrap_variables action ((key, v) # rest) newVariables =
     (if is_param_only action key then
        wrap_variables action rest (js_set newVariables key v)
      else if idVariable action \<noteq> None \<and> key = ''id'' then
        wrap_variables action rest (js_set newVariables ''id'' v)
      else
        (case map_of newVariables (modelApiIdentifier action) of
           Some (JsObj inner) \<Rightarrow>
             wrap_variables action rest
               (AList.update (modelApiIdentifier action) (JsObj (js_set inner key v)) newVariables)
         | _ \<Rightarrow> Inl TypeError))"

text \<open>
  Lines 272 to 308: the callback that \<^verbatim>\<open>useAction\<close> returns, up to the call of
  \<^verbatim>\<open>runMutation\<close>. The result is the exception thrown before the dispatch (the callback
  is an \<^verbatim>\<open>async\<close> function: the exception rejects the promise it returns), or the
  \<^verbatim>\<open>newVariables\<close> that are dispatched.
\<close>

definition useAction_variables ::
  "ActionFunction \<Rightarrow> (string \<times> json) list option \<Rightarrow> error + (string \<times> json) list" where
  "useAction_variables action given =
     (let variables = (case given of None \<Rightarrow> [] | Some vs \<Rightarrow> vs)
      in if invalid_arguments action variables then
           Inl (Error (''Invalid arguments found in variables. Did you mean to use ({ '' @
                       modelApiIdentifier action @ '': { ... } })?''))
         else if acceptsModelInput action \<or> hasCreateOrUpdateEffect action then
           (if already_nested action variables then Inr variables
            else wrap_variables action variables [(modelApiIdentifier action, JsObj [])])
         else Inr variables)"

subsection \<open>processResult\<close>

text \<open>
  Modelled from the spec: \<^verbatim>\<open>get\<close> of api-client-core is not in the sources. The spec has the
  mutation result nest under a field of the payload; \<open>get\<close> follows a path of keys and is
  \<^verbatim>\<open>undefined\<close> where a step is missing.
\<close>

fun get :: "json \<Rightarrow> string list \<Rightarrow> json" where
  "get j [] = j"
| "get (JsObj fs) (k # ks) = get (js_prop (JsObj fs) k) ks"
| "get j (k # ks) = JsUndefined"

text \<open>urql's \<^verbatim>\<open>UseMutationState\<close>: the fields processResult reads, and the rest of them.\<close>

record ('ce, 'x) UseMutationState =
  ms_data :: json
  ms_error :: "'ce option"
  ms_rest :: 'x

text \<open>The \<^verbatim>\<open>data\<close> of the processed result: \<^verbatim>\<open>null\<close>, \<^verbatim>\<open>mutationData.result\<close> as it came, or
  what \<^verbatim>\<open>hydrateRecord\<close> returned.\<close>

datatype 'r action_data = DataNull | DataResult json | DataRecord 'r

record ('ew, 'r, 'x) ActionHookState =
  ahs_data :: "'r action_data"
  ahs_error :: "'ew option"
  ahs_rest :: 'x

text \<open>
  Modelled from the spec: \<^verbatim>\<open>ErrorWrapper\<close> is not in the sources.
  \<^verbatim>\<open>ErrorWrapper.forMaybeCombinedError\<close> wraps the error of a response that has one
  (\<open>forCombinedError\<close>, a parameter) and leaves the error of the others empty; the spec has a
  response without errors end with a null error.
\<close>

definition forMaybeCombinedError :: "('ce \<Rightarrow> 'ew) \<Rightarrow> 'ce option \<Rightarrow> 'ew option" where
  "forMaybeCombinedError forCombinedError e = map_option forCombinedError e"

text \<open>Lines 331 to 334: the path of the mutation result in the payload.\<close>

definition dataPath :: "ActionFunction \<Rightarrow> string list" where
  "dataPath action =
     (case namespace action of
        Some ns \<Rightarrow> if ns \<noteq> [] then [ns, operationName action] else [operationName action]
      | None \<Rightarrow> [operationName action])"

text \<open>
  Lines 324 to 348. The helpers that are not in the sources are parameters:
  \<open>forCombinedError\<close> (see above), \<open>forErrorsResponse\<close> for
  \<^verbatim>\<open>ErrorWrapper.forErrorsResponse\<close>, \<open>response\<close> for the property \<^verbatim>\<open>response\<close> of an
  ErrorWrapper, and \<open>hydrateRecord\<close>.
\<close>

definition processResult ::
  "('ce \<Rightarrow> 'ew) \<Rightarrow> (json \<Rightarrow> 'p option \<Rightarrow> 'ew) \<Rightarrow> ('ew \<Rightarrow> 'p option) \<Rightarrow>
   (('ce, 'x) UseMutationState \<Rightarrow> json \<Rightarrow> 'r) \<Rightarrow>
   ('ce, 'x) UseMutationState \<Rightarrow> ActionFunction \<Rightarrow> ('ew, 'r, 'x) ActionHookState" where
  "processResult forCombinedError forErrorsResponse response hydrateRecord result action =
     (let error0 = forMaybeCombinedError forCombinedError (ms_error result);
          mutationData = get (ms_data result) (dataPath action);
          errors = js_prop mutationData ''errors'';
          none = \<lparr> ahs_data = DataNull, ahs_error = error0, ahs_rest = ms_rest result \<rparr>
      in if truthy (ms_data result) then
           (if truthy mutationData then
              (if truthy errors \<and> truthy (first_element errors) then
                 none \<lparr> ahs_error :=
                          Some (forErrorsResponse errors
                                  (case error0 of None \<Rightarrow> None | Some w \<Rightarrow> response w)) \<rparr>
               else
                 none \<lparr> ahs_data :=
                          (if hasReturnType action then DataResult (js_prop mutationData ''result'')
                           else DataRecord (hydrateRecord result
                                              (js_prop mutationData (modelSelectionField action)))) \<rparr>)
            else none)
         else none)"

section \<open>Notions the claims are stated in\<close>

text \<open>
  The Variables that \<open>extractVariables\<close> visits, each with the name of the argument it is
  the value of, in the order of the visit: the arguments of the field calls of a selection
  and, through line 66, those of its nested plain selections.
\<close>

fun variable_args :: "(string \<times> argval) list \<Rightarrow> (string \<times> Variable) list" where
  "variable_args [] = []"
| "variable_args ((name, AVar x) # rest) = (name, x) # variable_args rest"
| "variable_args ((name, AVal j) # rest) = variable_args rest"

fun traversed_args :: "FieldSelection \<Rightarrow> (string \<times> Variable) list" where
  "traversed_args [] = []"
| "traversed_args ((field, FCall args subselection) # rest) = variable_args args @ traversed_args rest"
| "traversed_args ((field, FSel sub) # rest) = traversed_args sub @ traversed_args rest"
| "traversed_args ((field, FBool b) # rest) = traversed_args rest"
| "traversed_args ((field, FNull) # rest) = traversed_args rest"
| "traversed_args ((field, FUndefined) # rest) = traversed_args rest"

text \<open>
  Whether a visited Variable can be stored under the name \<open>n\<close>: its explicit name is \<open>n\<close>,
  or it has none and \<open>n\<close> is the name of its argument followed by decimal digits, or by
  nothing (what \<open>nextName\<close> can return).
\<close>

definition may_take :: "string \<Rightarrow> string \<times> Variable \<Rightarrow> bool" where
  "may_take n = (\<lambda>(a, x). case vname x of
                    Some m \<Rightarrow> m = n
                  | None \<Rightarrow> take (length a) n = a \<and> list_all is_decimal (drop (length a) n))"





text \<open>A selection with no field call, at any depth.\<close>

fun no_calls :: "FieldSelection \<Rightarrow> bool" where
  "no_calls [] = True"
| "no_calls ((field, FCall args subselection) # rest) = False"
| "no_calls ((field, FSel sub) # rest) = (no_calls sub \<and> no_calls rest)"
| "no_calls ((field, FBool b) # rest) = no_calls rest"
| "no_calls ((field, FNull) # rest) = no_calls rest"
| "no_calls ((field, FUndefined) # rest) = no_calls rest"

text \<open>A selection with no field whose value is \<^verbatim>\<open>null\<close> or \<^verbatim>\<open>undefined\<close>, at any depth
  that \<open>compileFieldSelection\<close> reaches.\<close>

fun no_nullish :: "FieldSelection \<Rightarrow> bool" where
  "no_nullish [] = True"
| "no_nullish ((field, FCall args subselection) # rest) =
     ((case subselection of None \<Rightarrow> True | Some sub \<Rightarrow> no_nullish sub) \<and> no_nullish rest)"
| "no_nullish ((field, FSel sub) # rest) = (no_nullish sub \<and> no_nullish rest)"
| "no_nullish ((field, FBool b) # rest) = no_nullish rest"
| "no_nullish ((field, FNull) # rest) = False"
| "no_nullish ((field, FUndefined) # rest) = False"

text \<open>
  The lines the spec gives a selection without field calls: the name of a field mapped to
  \<^verbatim>\<open>true\<close>; nothing for \<^verbatim>\<open>false\<close>, \<^verbatim>\<open>null\<close> and \<^verbatim>\<open>undefined\<close>; for a nested selection
  the name and an opening brace, the lines of the nested selection one level deeper, and
  the closing brace. (A field with the empty name mapped to \<^verbatim>\<open>true\<close> gives no line: there
  is no name to write, and the code drops the empty string.)
\<close>

fun spec_lines :: "FieldSelection \<Rightarrow> string list" where
  "spec_lines [] = []"
| "spec_lines ((field, FBool b) # rest) = (if b \<and> field \<noteq> [] then [field] else []) @ spec_lines rest"
| "spec_lines ((field, FSel sub) # rest) =
     [field @ '' {''] @ map indent (spec_lines sub) @ [''}''] @ spec_lines rest"
| "spec_lines ((field, FNull) # rest) = spec_lines rest"
| "spec_lines ((field, FUndefined) # rest) = spec_lines rest"
| "spec_lines ((field, FCall args subselection) # rest) = spec_lines rest"

text \<open>
  The arguments of a field call that the spec has rendered, in their order: not the
  literal \<^verbatim>\<open>null\<close> and \<^verbatim>\<open>undefined\<close> and, with \<^verbatim>\<open>onlyPresentVariableValues\<close>, not those
  whose value is a Variable with no value.
\<close>

fun spec_shown_args :: "bool \<Rightarrow> (string \<times> argval) list \<Rightarrow> (string \<times> argval) list" where
  "spec_shown_args opv [] = []"
| "spec_shown_args opv ((name, AVal JNull) # rest) = spec_shown_args opv rest"
| "spec_shown_args opv ((name, AVal JUndefined) # rest) = spec_shown_args opv rest"
| "spec_shown_args opv ((name, AVal (JLit t s)) # rest) = (name, AVal (JLit t s)) # spec_shown_args opv rest"
| "spec_shown_args opv ((name, AVar x) # rest) =
     (if opv \<and> (vvalue x = JNull \<or> vvalue x = JUndefined) then spec_shown_args opv rest
      else (name, AVar x) # spec_shown_args opv rest)"

text \<open>
  The text of one argument: its name, a colon, and the literal JSON of a plain value or
  \<^verbatim>\<open>$variableName\<close> for a Variable, whose name in the body is its explicit name, or else
  the name of the argument.
\<close>

fun spec_arg_text :: "string \<times> argval \<Rightarrow> string" where
  "spec_arg_text (name, AVal JNull) = name @ '': null''"
| "spec_arg_text (name, AVal JUndefined) = name @ '': undefined''"
| "spec_arg_text (name, AVal (JLit t s)) = name @ '': '' @ s"
| "spec_arg_text (name, AVar x) = name @ '': $'' @ (case vname x of Some n \<Rightarrow> n | None \<Rightarrow> name)"

text \<open>The argument list of a field call: the shown arguments between parentheses,
  separated by a comma and a space; nothing at all, no parentheses, when none is shown.\<close>

definition spec_args_text :: "bool \<Rightarrow> (string \<times> argval) list \<Rightarrow> string" where
  "spec_args_text opv args =
     (case spec_shown_args opv args of
        [] \<Rightarrow> []
      | a # as \<Rightarrow> ''('' @ join '', '' (map spec_arg_text (a # as)) @ '')'')"

text \<open>
  The lines the spec gives a selection, field calls included, before the indentation of
  the selection itself: as \<open>spec_lines\<close>, and for a field call its name and argument list,
  followed when it has a sub-selection by an opening brace, the lines of the
  sub-selection one level deeper, and the closing brace. The flag
  \<^verbatim>\<open>onlyPresentVariableValues\<close> holds at every depth.
\<close>

fun spec_body_lines :: "bool \<Rightarrow> FieldSelection \<Rightarrow> string list" where
  "spec_body_lines opv [] = []"
| "spec_body_lines opv ((field, FBool b) # rest) =
     (if b \<and> field \<noteq> [] then [field] else []) @ spec_body_lines opv rest"
| "spec_body_lines opv ((field, FSel sub) # rest) =
     [field @ '' {''] @ map indent (spec_body_lines opv sub) @ [''}''] @ spec_body_lines opv rest"
| "spec_body_lines opv ((field, FCall args None) # rest) =
     (if field @ spec_args_text opv args = [] then [] else [field @ spec_args_text opv args]) @
     spec_body_lines opv rest"
| "spec_body_lines opv ((field, FCall args (Some sub)) # rest) =
     [field @ spec_args_text opv args @ '' {''] @ map indent (spec_body_lines opv sub) @ [''}''] @
     spec_body_lines opv rest"
| "spec_body_lines opv ((field, FNull) # rest) = spec_body_lines opv rest"
| "spec_body_lines opv ((field, FUndefined) # rest) = spec_body_lines opv rest"

text \<open>
  An ordinary name of an argument: not empty, not starting with a digit (so neither it
  nor it followed by digits is an array index), and not the name of a property of
  \<^verbatim>\<open>Object.prototype\<close>.
\<close>

definition ordinary_name :: "string \<Rightarrow> bool" where
  "ordinary_name a = (a \<noteq> [] \<and> \<not> is_decimal (hd a) \<and> a \<notin> set Object_prototype_names)"

text \<open>
  The keys of a flat variables object that the spec keeps at the top level: the declared
  param-only variables, and \<^verbatim>\<open>id\<close> when the action declares a variable \<^verbatim>\<open>id\<close> of type
  GadgetID.
\<close>

definition declared_param_only :: "ActionFunction \<Rightarrow> string set" where
  "declared_param_only action = (case paramOnlyVariables action of Some ps \<Rightarrow> set ps | None \<Rightarrow> {})"

definition has_gadget_id :: "ActionFunction \<Rightarrow> bool" where
  "has_gadget_id action =
     list_ex (\<lambda>(name, options). name = ''id'' \<and> var_type options = ''GadgetID'') (action_variables action)"

definition stays_top :: "ActionFunction \<Rightarrow> string \<Rightarrow> bool" where
  "stays_top action key = (key \<in> declared_param_only action \<or> (key = ''id'' \<and> has_gadget_id action))"

text \<open>A variables object that is already nested: it has the model identifier as a key,
  with an object (or an array, which is an object too) as its value.\<close>

definition nested_under_model :: "ActionFunction \<Rightarrow> (string \<times> json) list \<Rightarrow> bool" where
  "nested_under_model action variables =
     (case map_of variables (modelApiIdentifier action) of
        Some (JsObj fs) \<Rightarrow> True
      | Some (JsArr xs) \<Rightarrow> True
      | _ \<Rightarrow> False)"

text \<open>A key that an object keeps in the order it was written (it does not start with a
  digit, so it is no array index) and that is not \<^verbatim>\<open>__proto__\<close>.\<close>

definition plain_key :: "string \<Rightarrow> bool" where
  "plain_key k = (k \<noteq> ''__proto__'' \<and> (k = [] \<or> \<not> is_decimal (hd k)))"

text \<open>Line 339, \<^verbatim>\<open>errors && errors[0]\<close>: the mutation result reports errors.\<close>

definition has_errors :: "json \<Rightarrow> bool" where
  "has_errors mutationData =
     (truthy (js_prop mutationData ''errors'') \<and> truthy (first_element (js_prop mutationData ''errors'')))"

subsection \<open>Example inputs\<close>

text \<open>Variables with and without an explicit name, and selections that use them: twice
  the same explicit name; twice the same implicit name in one selection, across a nested
  selection, and under the sub-selection of a field call.\<close>

definition ex_id1 :: Variable where "ex_id1 = \<lparr>vtype = ''ID'', vname = None, vvalue = JLit True ''1''\<rparr>"
definition ex_id2 :: Variable where "ex_id2 = \<lparr>vtype = ''ID'', vname = None, vvalue = JLit True ''2''\<rparr>"
definition ex_n1 :: Variable where "ex_n1 = \<lparr>vtype = ''ID'', vname = Some ''n'', vvalue = JLit True ''1''\<rparr>"
definition ex_n2 :: Variable where "ex_n2 = \<lparr>vtype = ''String'', vname = Some ''n'', vvalue = JLit True ''2''\<rparr>"

definition ex_dup :: FieldSelection where
  "ex_dup = [(''a'', FCall [(''x'', AVar ex_n1)] None), (''b'', FSel [(''c'', FCall [(''y'', AVar ex_n2)] None)])]"

definition ex_nested :: FieldSelection where
  "ex_nested = [(''a'', FCall [(''id'', AVar ex_id1)] None), (''b'', FSel [(''c'', FCall [(''id'', AVar ex_id2)] None)])]"

definition ex_flat :: FieldSelection where
  "ex_flat = [(''a'', FCall [(''id'', AVar ex_id1)] None), (''b'', FCall [(''id'', AVar ex_id2)] None)]"

definition ex_subcall :: FieldSelection where
  "ex_subcall = [(''a'', FCall [(''id'', AVar ex_id1)] (Some [(''c'', FCall [(''first'', AVar ex_id2)] None)]))]"

definition ex_dup_flat :: FieldSelection where
  "ex_dup_flat = [(''a'', FCall [(''x'', AVar ex_n1)] None), (''b'', FCall [(''y'', AVar ex_n2)] None)]"

definition ex_dup_subcall :: FieldSelection where
  "ex_dup_subcall = [(''a'', FCall [(''x'', AVar ex_n1)] (Some [(''c'', FCall [(''y'', AVar ex_n2)] None)]))]"

text \<open>A Variable whose explicit name is \<^verbatim>\<open>__proto__\<close>, and an argument named as a property
  of \<^verbatim>\<open>Object.prototype\<close>.\<close>

definition ex_proto :: Variable where
  "ex_proto = \<lparr>vtype = ''ID'', vname = Some ''__proto__'', vvalue = JLit True ''1''\<rparr>"

definition ex_inherited :: FieldSelection where
  "ex_inherited = [(''a'', FCall [(''toString'', AVar ex_id1)] None), (''b'', FCall [(''toString'', AVar ex_id2)] None)]"

text \<open>The operation of the spec's example, with one more argument whose Variable has no
  value, and what \<open>compileWithVariableValues\<close> returns for it.\<close>

definition ex_absent :: Variable where
  "ex_absent = \<lparr>vtype = ''String'', vname = None, vvalue = JUndefined\<rparr>"

definition ex_null_var :: Variable where
  "ex_null_var = \<lparr>vtype = ''Int'', vname = Some ''limit'', vvalue = JNull\<rparr>"



text \<open>An operation with arguments to leave out at three places: in a field call at the top
  level, in the sub-selection of a field call, and in a nested selection.\<close>

definition ex_deep :: BuilderOperation where
  "ex_deep =
     \<lparr>op_type = Query,
      op_fields =
        [(''user'', FCall [(''id'', AVar ex_id1), (''email'', AVar ex_absent)]
                      (Some [(''posts'', FCall [(''first'', AVal (JLit True ''5'')), (''after'', AVar ex_absent),
                                               (''tag'', AVal JNull)]
                                         (Some [(''title'', FBool True)]))])),
         (''viewer'', FSel [(''friends'', FCall [(''email'', AVar ex_absent), (''first'', AVar ex_null_var)]
                                              None)])],
      op_name = None, op_directives = None\<rparr>"

definition ex_deep_compiled :: CompiledQuery where
  "ex_deep_compiled =
     \<lparr>cq_query = ''query ($id: ID) {'' @ newline @ ''  user(id: $id) {'' @ newline @
                  ''    posts(first: 5) {'' @ newline @ ''      title'' @ newline @ ''    }'' @ newline @
                  ''  }'' @ newline @ ''  viewer {'' @ newline @ ''    friends'' @ newline @ ''  }'' @ newline @
                  ''}'',
      cq_variables = [(''id'', JLit True ''1'')]\<rparr>"

text \<open>Arguments of which some are the literal \<^verbatim>\<open>null\<close> or \<^verbatim>\<open>undefined\<close>, and all.\<close>

definition ex_mixed_args :: "(string \<times> argval) list" where
  "ex_mixed_args =
     [(''a'', AVal JNull), (''b'', AVal (JLit True ''3'')), (''c'', AVal JUndefined), (''d'', AVar ex_absent),
      (''e'', AVal (JLit False ''false''))]"

definition ex_null_args :: "(string \<times> argval) list" where
  "ex_null_args = [(''a'', AVal JNull), (''b'', AVal JUndefined)]"

text \<open>Operations without field calls.\<close>

definition ex_null_field :: BuilderOperation where
  "ex_null_field = \<lparr>op_type = Query, op_fields = [(''a'', FNull), (''b'', FBool True)],
                     op_name = None, op_directives = None\<rparr>"

definition ex_false_field :: BuilderOperation where
  "ex_false_field = \<lparr>op_type = Query, op_fields = [(''a'', FBool False), (''b'', FBool True)],
                      op_name = None, op_directives = None\<rparr>"

definition ex_plain :: BuilderOperation where
  "ex_plain =
     \<lparr>op_type = Query,
      op_fields = [(''id'', FBool True), (''secret'', FBool False),
                   (''owner'', FSel [(''name'', FBool True), (''email'', FBool False)])],
      op_name = Some ''Widget'', op_directives = None\<rparr>"

text \<open>Action descriptors, the variables of a call, and responses.\<close>

definition ex_create :: ActionFunction where
  "ex_create =
     \<lparr>operationName = ''createWidget'', modelApiIdentifier = ''widget'', modelSelectionField = ''widget'',
      namespace = None,
      action_variables = [(''id'', \<lparr>var_type = ''GadgetID''\<rparr>),
                          (''widget'', \<lparr>var_type = ''CreateWidgetInput''\<rparr>),
                          (''notify'', \<lparr>var_type = ''Boolean''\<rparr>)],
      paramOnlyVariables = Some [''notify''],
      hasAmbiguousIdentifier = False, acceptsModelInput = True, hasCreateOrUpdateEffect = True,
      hasReturnType = False\<rparr>"

definition ex_ambiguous :: ActionFunction where
  "ex_ambiguous = ex_create\<lparr>hasAmbiguousIdentifier := True\<rparr>"

definition ex_string_id :: ActionFunction where
  "ex_string_id =
     ex_create\<lparr>action_variables := [(''id'', \<lparr>var_type = ''String''\<rparr>),
                                     (''widget'', \<lparr>var_type = ''CreateWidgetInput''\<rparr>),
                                     (''notify'', \<lparr>var_type = ''Boolean''\<rparr>)]\<rparr>"

definition ex_report :: ActionFunction where
  "ex_report = ex_create\<lparr>operationName := ''runReport'', hasReturnType := True\<rparr>"

definition ex_flat_variables :: "(string \<times> json) list" where
  "ex_flat_variables =
     [(''name'', JsStr ''hammer''), (''notify'', JsBool True), (''id'', JsStr ''7''), (''price'', JsNum 3)]"

definition ex_nested_variables :: "(string \<times> json) list" where
  "ex_nested_variables = [(''widget'', JsObj [(''name'', JsStr ''hammer'')]), (''notify'', JsBool True)]"

definition ex_param_variables :: "(string \<times> json) list" where
  "ex_param_variables = [(''notify'', JsBool True)]"

text \<open>Stand-ins for the helpers that are parameters of \<open>processResult\<close>: an error wrapper is
  a text here, a hydrated record the JSON it was made from.\<close>

definition ex_forCombinedError :: "string \<Rightarrow> string" where
  "ex_forCombinedError e = ''wrapped: '' @ e"

definition ex_forErrorsResponse :: "json \<Rightarrow> unit option \<Rightarrow> string" where
  "ex_forErrorsResponse errors response = ''errors response''"

definition ex_response :: "string \<Rightarrow> unit option" where
  "ex_response w = None"

definition ex_hydrateRecord :: "(string, unit) UseMutationState \<Rightarrow> json \<Rightarrow> json" where
  "ex_hydrateRecord result record = record"

definition ex_created :: "(string, unit) UseMutationState" where
  "ex_created =
     \<lparr>ms_data = JsObj [(''createWidget'',
                         JsObj [(''success'', JsBool True), (''errors'', JsNull),
                                (''widget'', JsObj [(''id'', JsStr ''7'')])])],
      ms_error = None, ms_rest = ()\<rparr>"

definition ex_failed :: "(string, unit) UseMutationState" where
  "ex_failed =
     \<lparr>ms_data = JsObj [(''createWidget'',
                         JsObj [(''success'', JsBool False),
                                (''errors'', JsArr [JsObj [(''message'', JsStr ''name is required'')]]),
                                (''widget'', JsNull)])],
      ms_error = None, ms_rest = ()\<rparr>"

definition ex_reported :: "(string, unit) UseMutationState" where
  "ex_reported =
     \<lparr>ms_data = JsObj [(''runReport'',
                         JsObj [(''success'', JsBool True), (''errors'', JsNull),
                                (''result'', JsStr ''done'')])],
      ms_error = None, ms_rest = ()\<rparr>"

section \<open>Properties of the query compiler\<close>

subsection \<open>The text of a selection\<close>

lemma call_entries_shown: "call_entries args opv = spec_shown_args opv args"
  by (induction opv args rule: spec_shown_args.induct) (auto simp: call_entries_def Let_def present_def)

lemma arg_signature_text: "arg_signature p = spec_arg_text p"
  by (cases p rule: spec_arg_text.cases) (simp_all add: arg_signature_def JSON_stringify_def)

lemma call_args_text: "call_args args opv = spec_args_text opv args"
proof -
  have "arg_signature = spec_arg_text"
    by (rule ext) (rule arg_signature_text)
  then show ?thesis
    by (simp add: call_args_def spec_args_text_def call_entries_shown split: list.splits)
qed

lemma shown_args_filter:
  "spec_shown_args opv args =
     filter (\<lambda>(n, v). case v of AVal j \<Rightarrow> j \<noteq> JNull \<and> j \<noteq> JUndefined | AVar x \<Rightarrow> opv \<longrightarrow> present x) args"
  by (induction opv args rule: spec_shown_args.induct) (auto simp: present_def)

lemma shown_args_False:
  "spec_shown_args False args = filter (\<lambda>(n, v). v \<noteq> AVal JNull \<and> v \<noteq> AVal JUndefined) args"
  by (induction "False" args rule: spec_shown_args.induct) auto

lemma shown_args_not_nullish:
  "(name, v) \<in> set (spec_shown_args opv args) \<Longrightarrow> v \<noteq> AVal JNull \<and> v \<noteq> AVal JUndefined"
  by (auto simp: shown_args_filter)

lemma shown_args_all_nullish:
  "\<forall>(n, v) \<in> set args. v = AVal JNull \<or> v = AVal JUndefined \<Longrightarrow> spec_shown_args opv args = []"
  by (auto simp: shown_args_filter filter_empty_conv)

lemma args_text_filter:
  "spec_args_text opv args =
     (let shown = filter (\<lambda>(n, v). case v of AVal j \<Rightarrow> j \<noteq> JNull \<and> j \<noteq> JUndefined
                                      | AVar x \<Rightarrow> opv \<longrightarrow> present x) args
      in if shown = [] then [] else ''('' @ join '', '' (map spec_arg_text shown) @ '')'')"
  by (simp add: spec_args_text_def shown_args_filter Let_def split: list.splits)

lemma truthy_lines_append: "truthy_lines (xs @ ys) = truthy_lines xs @ truthy_lines ys"
  by (simp add: truthy_lines_def)

lemma truthy_lines_indented: "truthy_lines (map (Some \<circ> indent) ls) = map indent ls"
  by (induction ls) (simp_all add: truthy_lines_def indent_def)

lemma truthy_lines_simps:
  "truthy_lines [] = []"
  "truthy_lines (None # ls) = truthy_lines ls"
  "truthy_lines (Some l # ls) = (if l = [] then [] else [l]) @ truthy_lines ls"
  by (simp_all add: truthy_lines_def)

lemma spec_body_lines_Cons:
  "spec_body_lines opv ((field, v) # rest) = spec_body_lines opv [(field, v)] @ spec_body_lines opv rest"
  by (cases "(opv, [(field, v)])" rule: spec_body_lines.cases) simp_all

lemma selection_lines:
  "compileFieldSelection sel opv = Inr ls \<Longrightarrow> ls = map indent (spec_body_lines opv sel)"
  "flatMap_fields sel opv = Inr os \<Longrightarrow> truthy_lines os = spec_body_lines opv sel"
  "compile_field field v opv = Inr os \<Longrightarrow> truthy_lines os = spec_body_lines opv [(field, v)]"
proof (induction sel opv and sel opv and field v opv arbitrary: ls and os and os
       rule: compileFieldSelection_flatMap_fields_compile_field.induct)
  case (1 sel opv)
  then show ?case by (auto split: sum.splits)
next
  case (2 opv)
  then show ?case by (simp add: truthy_lines_simps)
next
  case (3 field v rest opv)
  from "3.prems" obtain a b where a: "compile_field field v opv = Inr a"
    and b: "flatMap_fields rest opv = Inr b" and os: "os = a @ b"
    by (auto split: sum.splits)
  have "truthy_lines a = spec_body_lines opv [(field, v)]"
    using a by (rule "3.IH"(1))
  moreover have "truthy_lines b = spec_body_lines opv rest"
    using a b by (rule "3.IH"(2))
  ultimately show ?case
    using os spec_body_lines_Cons [of opv field v rest] by (simp add: truthy_lines_append)
next
  case (4 field b opv)
  then show ?case by (auto simp: truthy_lines_simps)
next
  case (5 field args subselection opv)
  show ?case
  proof (cases subselection)
    case None
    with "5.prems" show ?thesis
      by (auto simp: truthy_lines_simps call_args_text)
  next
    case (Some sub)
    with "5.prems" obtain ls where ls: "compileFieldSelection sub opv = Inr ls"
      and os: "os = [Some (field @ call_args args opv @ '' {'')] @ map Some ls @ [Some ''}'']"
      by (auto split: sum.splits)
    from "5.IH" [OF Some ls] have "ls = map indent (spec_body_lines opv sub)" .
    with os Some show ?thesis
      by (simp add: truthy_lines_simps truthy_lines_append truthy_lines_indented call_args_text)
  qed
next
  case (6 field opv)
  then show ?case by simp
next
  case (7 field opv)
  then show ?case by simp
next
  case (8 field sub opv)
  from "8.prems" obtain ls where ls: "compileFieldSelection sub opv = Inr ls"
    and os: "os = [Some (field @ '' {'')] @ map Some ls @ [Some ''}'']"
    by (auto split: sum.splits)
  from "8.IH" [OF ls] have "ls = map indent (spec_body_lines opv sub)" .
  with os show ?case
    by (simp add: truthy_lines_simps truthy_lines_append truthy_lines_indented)
qed

subsection \<open>Arguments that are null or undefined\<close>

text \<open>
  Claim C10. The text of the arguments of a field call is the text of the arguments that
  are not the literal \<^verbatim>\<open>null\<close> or \<^verbatim>\<open>undefined\<close> (and, with \<^verbatim>\<open>onlyPresentVariableValues\<close>, not a
  Variable without a value), in their order, between parentheses: such a literal is
  never rendered, whatever the flag is and whatever the other arguments are. This is the
  text that follows the name of the field in the compiled line, with or without a
  sub-selection, at every depth of a selection. When every argument of the call is such
  a literal, the text of the arguments is empty: the field is rendered with no
  parentheses.
\<close>

theorem null_arguments_omitted:
  "(name, AVal JNull) \<notin> set (spec_shown_args opv args) \<and>
   (name, AVal JUndefined) \<notin> set (spec_shown_args opv args) \<and>
   call_args args opv = spec_args_text opv args \<and>
   call_args args False =
     (let shown = filter (\<lambda>(n, v). v \<noteq> AVal JNull \<and> v \<noteq> AVal JUndefined) args
      in if shown = [] then [] else ''('' @ join '', '' (map spec_arg_text shown) @ '')'') \<and>
   compile_field field (FCall args None) opv = Inr [Some (field @ spec_args_text opv args)] \<and>
   (\<forall>ls. compileFieldSelection sub opv = Inr ls \<longrightarrow>
      compile_field field (FCall args (Some sub)) opv =
        Inr (Some (field @ spec_args_text opv args @ '' {'') # map Some ls @ [Some ''}''])) \<and>
   (\<forall>ls. compileFieldSelection sel opv = Inr ls \<longrightarrow> ls = map indent (spec_body_lines opv sel)) \<and>
   ((\<forall>(n, v) \<in> set args. v = AVal JNull \<or> v = AVal JUndefined) \<longrightarrow>
      call_args args opv = [] \<and>
      compile_field field (FCall args None) opv = Inr [Some field] \<and>
      (\<forall>ls. compileFieldSelection sub opv = Inr ls \<longrightarrow>
         compile_field field (FCall args (Some sub)) opv =
           Inr (Some (field @ '' {'') # map Some ls @ [Some ''}''])))"
proof (intro conjI impI allI)
  show "(name, AVal JNull) \<notin> set (spec_shown_args opv args)"
    using shown_args_not_nullish by blast
  show "(name, AVal JUndefined) \<notin> set (spec_shown_args opv args)"
    using shown_args_not_nullish by blast
  show "call_args args opv = spec_args_text opv args"
    by (rule call_args_text)
  show "call_args args False =
     (let shown = filter (\<lambda>(n, v). v \<noteq> AVal JNull \<and> v \<noteq> AVal JUndefined) args
      in if shown = [] then [] else ''('' @ join '', '' (map spec_arg_text shown) @ '')'')"
    by (simp add: call_args_text spec_args_text_def shown_args_False Let_def split: list.splits)
  show "compile_field field (FCall args None) opv = Inr [Some (field @ spec_args_text opv args)]"
    by (simp add: call_args_text)
next
  fix ls assume "compileFieldSelection sub opv = Inr ls"
  then show "compile_field field (FCall args (Some sub)) opv =
        Inr (Some (field @ spec_args_text opv args @ '' {'') # map Some ls @ [Some ''}''])"
    by (simp add: call_args_text)
next
  fix ls assume "compileFieldSelection sel opv = Inr ls"
  then show "ls = map indent (spec_body_lines opv sel)"
    by (rule selection_lines(1))
next
  assume a: "\<forall>(n, v) \<in> set args. v = AVal JNull \<or> v = AVal JUndefined"
  then show e: "call_args args opv = []"
    by (simp add: call_args_text spec_args_text_def shown_args_all_nullish)
  then show "compile_field field (FCall args None) opv = Inr [Some field]"
    by simp
  fix ls assume "compileFieldSelection sub opv = Inr ls"
  with e show "compile_field field (FCall args (Some sub)) opv =
           Inr (Some (field @ '' {'') # map Some ls @ [Some ''}''])"
    by simp
qed

theorem null_arguments_omitted_witness:
  "call_args ex_mixed_args False = ''(b: 3, d: $d, e: false)'' \<and>
   call_args ex_mixed_args True = ''(b: 3, e: false)'' \<and>
   compile_field ''user'' (FCall ex_mixed_args None) False = Inr [Some ''user(b: 3, d: $d, e: false)''] \<and>
   compileFieldSelection [(''name'', FBool True)] False = Inr [''  name''] \<and>
   compile_field ''user'' (FCall ex_mixed_args (Some [(''name'', FBool True)])) False =
     Inr [Some ''user(b: 3, d: $d, e: false) {'', Some ''  name'', Some ''}''] \<and>
   compileFieldSelection [(''q'', FSel [(''user'', FCall ex_mixed_args None)])] False =
     Inr [''  q {'', ''    user(b: 3, d: $d, e: false)'', ''  }''] \<and>
   call_args ex_null_args False = [] \<and>
   compile_field ''user'' (FCall ex_null_args None) False = Inr [Some ''user''] \<and>
   compile_field ''user'' (FCall ex_null_args (Some [(''name'', FBool True)])) False =
     Inr [Some ''user {'', Some ''  name'', Some ''}'']"
proof -
  have t: "spec_args_text False ex_mixed_args = ''(b: 3, d: $d, e: false)''"
    by (simp add: spec_args_text_def ex_mixed_args_def ex_absent_def)
  have s: "compileFieldSelection [(''name'', FBool True)] False = Inr [''  name'']"
    by (simp add: truthy_lines_def indent_def)
  have q: "compileFieldSelection [(''q'', FSel [(''user'', FCall ex_mixed_args None)])] False =
     Inr [''  q {'', ''    user(b: 3, d: $d, e: false)'', ''  }'']"
    by code_simp
  have n: "\<forall>(n, v) \<in> set ex_null_args. v = AVal JNull \<or> v = AVal JUndefined"
    by (simp add: ex_null_args_def)
  note m = null_arguments_omitted
    [of "''a''" False ex_mixed_args "''user''" "[(''name'', FBool True)]"
        "[(''q'', FSel [(''user'', FCall ex_mixed_args None)])]"]
  note z = null_arguments_omitted
    [of "''a''" False ex_null_args "''user''" "[(''name'', FBool True)]" "[]"]
  have t': "spec_args_text True ex_mixed_args = ''(b: 3, e: false)''"
    by (simp add: spec_args_text_def ex_mixed_args_def ex_absent_def)
  from null_arguments_omitted [of "''a''" True ex_mixed_args "''user''" "[]" "[]"] t'
  have m': "call_args ex_mixed_args True = ''(b: 3, e: false)''"
    by simp
  from m t s have
    "call_args ex_mixed_args False = ''(b: 3, d: $d, e: false)''"
    "compile_field ''user'' (FCall ex_mixed_args None) False = Inr [Some ''user(b: 3, d: $d, e: false)'']"
    "compile_field ''user'' (FCall ex_mixed_args (Some [(''name'', FBool True)])) False =
       Inr [Some ''user(b: 3, d: $d, e: false) {'', Some ''  name'', Some ''}'']"
    by simp_all
  moreover from z n have e: "call_args ex_null_args False = []"
    and f: "compile_field ''user'' (FCall ex_null_args None) False = Inr [Some ''user'']"
    and g: "\<forall>ls. compileFieldSelection [(''name'', FBool True)] False = Inr ls \<longrightarrow>
         compile_field ''user'' (FCall ex_null_args (Some [(''name'', FBool True)])) False =
           Inr (Some (''user'' @ '' {'') # map Some ls @ [Some ''}''])"
    by blast+
  moreover from g s have
    "compile_field ''user'' (FCall ex_null_args (Some [(''name'', FBool True)])) False =
       Inr [Some ''user {'', Some ''  name'', Some ''}'']"
    by (simp del: compileFieldSelection.simps compile_field.simps)
  ultimately show ?thesis
    using s q m' by simp
qed

subsection \<open>Objects as association lists\<close>

lemma update_fresh: "k \<notin> fst ` set al \<Longrightarrow> AList.update k v al = al @ [(k, v)]"
  by (induction al) auto

lemma set_update_subset: "set (AList.update k v al) \<subseteq> insert (k, v) (set al)"
  by (induction al) auto

lemma keys_update: "fst ` set (AList.update k v al) = insert k (fst ` set al)"
  by (induction al) auto

lemma set_variable_entries:
  "set (vo_entries (set_variable obj k v)) \<subseteq> insert (k, v) (set (vo_entries obj))"
  using set_update_subset [of k v "vo_entries obj"] by (auto simp: set_variable_def)

lemma set_variable_distinct:
  "distinct (map fst (vo_entries obj)) \<Longrightarrow> distinct (map fst (vo_entries (set_variable obj k v)))"
  by (simp add: set_variable_def distinct_update)

lemma set_variable_no_proto:
  "''__proto__'' \<notin> fst ` set (vo_entries obj) \<Longrightarrow>
   ''__proto__'' \<notin> fst ` set (vo_entries (set_variable obj k v))"
  by (simp add: set_variable_def keys_update)

lemma Object_assign_entries:
  "set (vo_entries (Object_assign t s)) \<subseteq> set (vo_entries t) \<union> set s"
  unfolding Object_assign_def
proof (induction s arbitrary: t)
  case (Cons p s)
  obtain k v where p: "p = (k, v)" by (cases p)
  have "set (vo_entries (fold (\<lambda>(k, v) acc. set_variable acc k v) s (set_variable t k v)))
      \<subseteq> set (vo_entries (set_variable t k v)) \<union> set s"
    by (rule Cons.IH)
  also have "\<dots> \<subseteq> insert (k, v) (set (vo_entries t)) \<union> set s"
    using set_variable_entries [of t k v] by blast
  finally show ?case using p by auto
qed simp

lemma Object_assign_distinct:
  "distinct (map fst (vo_entries t)) \<Longrightarrow> distinct (map fst (vo_entries (Object_assign t s)))"
  unfolding Object_assign_def
  by (induction s arbitrary: t) (auto simp: set_variable_distinct)

lemma Object_assign_no_proto:
  "''__proto__'' \<notin> fst ` set (vo_entries t) \<Longrightarrow>
   ''__proto__'' \<notin> fst ` set (vo_entries (Object_assign t s))"
  unfolding Object_assign_def
proof (induction s arbitrary: t)
  case (Cons p s)
  obtain k v where p: "p = (k, v)" by (cases p)
  from Cons.prems have "''__proto__'' \<notin> fst ` set (vo_entries (set_variable t k v))"
    by (rule set_variable_no_proto)
  from Cons.IH [OF this] p show ?case by simp
qed simp

lemma fold_js_set_fresh:
  "distinct (map fst xs) \<Longrightarrow> fst ` set xs \<inter> fst ` set acc = {} \<Longrightarrow> ''__proto__'' \<notin> fst ` set xs \<Longrightarrow>
   fold (\<lambda>(name, variable) acc. js_set acc name (f variable)) xs acc
     = acc @ map (\<lambda>(name, variable). (name, f variable)) xs"
proof (induction xs arbitrary: acc)
  case (Cons p xs)
  obtain k v where p: "p = (k, v)" by (cases p)
  from Cons.prems p have fresh: "k \<notin> fst ` set acc" and k: "k \<noteq> ''__proto__''" by auto
  have "fst ` set xs \<inter> fst ` set (acc @ [(k, f v)]) = {}"
    using Cons.prems p by auto
  moreover from Cons.prems have "distinct (map fst xs)" "''__proto__'' \<notin> fst ` set xs"
    by auto
  ultimately have "fold (\<lambda>(name, variable) acc. js_set acc name (f variable)) xs (acc @ [(k, f v)])
      = (acc @ [(k, f v)]) @ map (\<lambda>(name, variable). (name, f variable)) xs"
    by (intro Cons.IH)
  then show ?case
    using p fresh k by (simp add: js_set_def update_fresh)
qed simp

subsection \<open>The names nextName returns\<close>

lemma digits_decimal: "list_all is_decimal (digits k)"
proof (induction k rule: digits.induct)
  case (1 n)
  show ?case
  proof (cases "n < 10")
    case True
    then have "digits n = [digit_char n]"
      by (subst digits.simps) simp
    with True show ?thesis
      by (simp add: digit_char_decimal)
  next
    case False
    then have "digits n = digits (n div 10) @ [digit_char (n mod 10)]"
      by (subst digits.simps) simp
    moreover have "is_decimal (digit_char (n mod 10))"
      by (rule digit_char_decimal) simp
    ultimately show ?thesis
      using "1.IH" [OF False] by simp
  qed
qed

lemma nextName_shape:
  "take (length a) (nextName vars a) = a \<and>
   list_all is_decimal (drop (length a) (nextName vars a))"
  by (simp add: nextName_def digits_decimal)

subsection \<open>What extractVariables collects\<close>

lemma extract_args_distinct:
  "distinct (map fst (vo_entries vars)) \<Longrightarrow> distinct (map fst (vo_entries (extract_args args vars)))"
  by (induction args vars rule: extract_args.induct) (simp_all add: set_variable_distinct)

lemma extract_args_no_proto:
  "''__proto__'' \<notin> fst ` set (vo_entries vars) \<Longrightarrow>
   ''__proto__'' \<notin> fst ` set (vo_entries (extract_args args vars))"
  by (induction args vars rule: extract_args.induct) (simp_all add: set_variable_no_proto)

lemma extract_distinct:
  "distinct (map fst (extractVariables sel opv))"
  "distinct (map fst (vo_entries vars)) \<Longrightarrow> distinct (map fst (vo_entries (extract_fields sel vars)))"
proof (induction sel opv and sel vars rule: extractVariables_extract_fields.induct)
  case (1 sel opv)
  then show ?case by (simp add: distinct_map_filter Let_def empty_object_def)
qed (simp_all add: extract_args_distinct Object_assign_distinct)

lemma extract_no_proto:
  "''__proto__'' \<notin> fst ` set (extractVariables sel opv)"
  "''__proto__'' \<notin> fst ` set (vo_entries vars) \<Longrightarrow>
   ''__proto__'' \<notin> fst ` set (vo_entries (extract_fields sel vars))"
proof (induction sel opv and sel vars rule: extractVariables_extract_fields.induct)
  case (1 sel opv)
  then have "''__proto__'' \<notin> fst ` set (vo_entries (extract_fields sel empty_object))"
    by (simp add: empty_object_def)
  then show ?case by (auto simp: Let_def)
qed (simp_all add: extract_args_no_proto Object_assign_no_proto)

lemma extract_args_origin:
  "(k, x) \<in> set (vo_entries (extract_args args vars)) \<Longrightarrow>
   (k, x) \<in> set (vo_entries vars) \<or> (\<exists>a. (a, x) \<in> set (variable_args args) \<and> may_take k (a, x))"
proof (induction args vars rule: extract_args.induct)
  case (2 name y rest variables)
  let ?key = "case vname y of Some m \<Rightarrow> m | None \<Rightarrow> nextName variables name"
  from "2.prems" have "(k, x) \<in> set (vo_entries (extract_args rest (set_variable variables ?key y)))"
    by simp
  from "2.IH" [OF this] consider
    (old) "(k, x) \<in> set (vo_entries (set_variable variables ?key y))"
    | (new) "\<exists>a. (a, x) \<in> set (variable_args rest) \<and> may_take k (a, x)"
    by blast
  then show ?case
  proof cases
    case old
    then have "(k, x) = (?key, y) \<or> (k, x) \<in> set (vo_entries variables)"
      using set_variable_entries by fastforce
    then show ?thesis
    proof
      assume "(k, x) = (?key, y)"
      then have "may_take k (name, x)" "y = x"
        using nextName_shape [of name variables]
        by (auto simp: may_take_def split: option.splits)
      then show ?thesis by auto
    qed simp
  next
    case new
    then show ?thesis by auto
  qed
qed simp_all

lemma extract_origin:
  fixes opv :: bool
  shows "(k, x) \<in> set (vo_entries (extract_fields sel empty_object)) \<Longrightarrow>
     (\<exists>a. (a, x) \<in> set (traversed_args sel) \<and> may_take k (a, x))"
  and "(k, x) \<in> set (vo_entries (extract_fields sel vars)) \<Longrightarrow>
     (k, x) \<in> set (vo_entries vars) \<or> (\<exists>a. (a, x) \<in> set (traversed_args sel) \<and> may_take k (a, x))"
proof (induction sel opv and sel vars rule: extractVariables_extract_fields.induct)
  case (1 sel opv)
  from "1.IH" [OF "1.prems"] show ?case
    by (simp add: empty_object_def)
next
  case (3 field args subselection rest variables)
  from "3.prems" have "(k, x) \<in> set (vo_entries (extract_fields rest (extract_args args variables)))"
    by simp
  from "3.IH" [OF this] show ?case
    using extract_args_origin [of k x args variables] by auto
next
  case (4 field sub rest variables)
  from "4.prems" have "(k, x) \<in> set (vo_entries (extract_fields rest (Object_assign variables (extractVariables sub False))))"
    by simp
  from "4.IH"(2) [OF this] show ?case
    using "4.IH"(1) Object_assign_entries [of variables "vo_entries (extract_fields sub empty_object)"] by auto
qed auto

lemma explicit_name_kept:
  assumes "(k, x) \<in> set (extractVariables sel opv)" and "vname x = Some n"
  shows "k = n"
proof -
  from assms(1) have "(k, x) \<in> set (vo_entries (extract_fields sel empty_object))"
    by (auto simp: Let_def split: if_splits)
  from extract_origin(1) [OF this] assms(2) show ?thesis
    by (auto simp: may_take_def)
qed

lemma extractVariables_True:
  "extractVariables sel True = filter (\<lambda>(n, x). present x) (extractVariables sel False)"
  by (simp add: present_def Let_def)

lemma extracted_present: "(n, x) \<in> set (extractVariables sel True) \<Longrightarrow> present x"
  by (auto simp: present_def Let_def)

lemma variables_of_compileWithVariableValues:
  "compileWithVariableValues operation = Inr r \<Longrightarrow>
   cq_variables r = map (\<lambda>(n, x). (n, vvalue x)) (extractVariables (op_fields operation) True)"
  using fold_js_set_fresh [of "extractVariables (op_fields operation) True" "[]" vvalue]
    extract_distinct(1) [of "op_fields operation" True]
    extract_no_proto(1) [of "op_fields operation" True]
  by (auto simp: compileWithVariableValues_def Let_def split: sum.splits)

subsection \<open>Variables without a value\<close>

text \<open>
  Claim C2. With \<^verbatim>\<open>onlyPresentVariableValues = true\<close> a Variable whose value is \<^verbatim>\<open>null\<close> or
  \<^verbatim>\<open>undefined\<close> is in no entry of the extraction, from which both the signature and the
  returned variables are made: the signature renders one declaration for each entry, the
  variables are the values of the same entries, and none of them is \<^verbatim>\<open>null\<close> or
  \<^verbatim>\<open>undefined\<close>. An argument that refers to such a Variable is not among the arguments
  shown: the text of the arguments of a field call is that of the other arguments alone
  (those that are not the literal \<^verbatim>\<open>null\<close> or \<^verbatim>\<open>undefined\<close> either), and the compiled
  lines of a selection, hence the body of the returned query, carry that text for every
  field call, at every depth.
\<close>

theorem only_present_variables:
  "(\<not> present x \<longrightarrow>
      (n, x) \<notin> set (extractVariables sel True) \<and> (a, AVar x) \<notin> set (spec_shown_args True args)) \<and>
   call_args args True =
     (let shown = filter (\<lambda>(n, v). case v of AVal j \<Rightarrow> j \<noteq> JNull \<and> j \<noteq> JUndefined
                                      | AVar x \<Rightarrow> present x) args
      in if shown = [] then [] else ''('' @ join '', '' (map spec_arg_text shown) @ '')'') \<and>
   call_args args True = spec_args_text True args \<and>
   (\<forall>ls. compileFieldSelection sel True = Inr ls \<longrightarrow> ls = map indent (spec_body_lines True sel)) \<and>
   (compileWithVariableValues operation = Inr r \<longrightarrow>
      cq_variables r = map (\<lambda>(n, x). (n, vvalue x)) (extractVariables (op_fields operation) True) \<and>
      (\<forall>(n, j) \<in> set (cq_variables r). j \<noteq> JNull \<and> j \<noteq> JUndefined) \<and>
      cq_query r = optype_text (op_type operation) @ '' '' @ name_text operation @
                   compileVariables operation True @ directives_text operation @ '' {'' @ newline @
                   join newline (map indent (spec_body_lines True (op_fields operation))) @ newline @ ''}'') \<and>
   compileVariables operation True =
     (if extractVariables (op_fields operation) True = [] then []
      else ''('' @ join '', '' (map var_signature (extractVariables (op_fields operation) True)) @ '')'')"
proof (intro conjI impI allI)
  assume "\<not> present x"
  then show "(n, x) \<notin> set (extractVariables sel True)"
    using extracted_present by blast
  show "(a, AVar x) \<notin> set (spec_shown_args True args)"
    using \<open>\<not> present x\<close> by (auto simp: shown_args_filter)
next
  show "call_args args True =
     (let shown = filter (\<lambda>(n, v). case v of AVal j \<Rightarrow> j \<noteq> JNull \<and> j \<noteq> JUndefined
                                      | AVar x \<Rightarrow> present x) args
      in if shown = [] then [] else ''('' @ join '', '' (map spec_arg_text shown) @ '')'')"
    using args_text_filter [of True args] by (simp add: call_args_text)
  show "call_args args True = spec_args_text True args"
    by (rule call_args_text)
next
  fix ls assume "compileFieldSelection sel True = Inr ls"
  then show "ls = map indent (spec_body_lines True sel)"
    by (rule selection_lines(1))
next
  assume r: "compileWithVariableValues operation = Inr r"
  then show eq: "cq_variables r = map (\<lambda>(n, x). (n, vvalue x)) (extractVariables (op_fields operation) True)"
    by (rule variables_of_compileWithVariableValues)
  show "\<forall>(n, j) \<in> set (cq_variables r). j \<noteq> JNull \<and> j \<noteq> JUndefined"
    unfolding eq using extracted_present [of _ _ "op_fields operation"]
    by (fastforce simp: present_def)
  from r obtain ls where ls: "compileFieldSelection (op_fields operation) True = Inr ls"
    and q: "cq_query r = optype_text (op_type operation) @ '' '' @ name_text operation @
                   compileVariables operation True @ directives_text operation @ '' {'' @ newline @
                   join newline ls @ newline @ ''}''"
    by (auto simp: compileWithVariableValues_def compile_def Let_def split: sum.splits)
  from selection_lines(1) [OF ls] q
  show "cq_query r = optype_text (op_type operation) @ '' '' @ name_text operation @
                   compileVariables operation True @ directives_text operation @ '' {'' @ newline @
                   join newline (map indent (spec_body_lines True (op_fields operation))) @ newline @ ''}''"
    by simp
next
  show "compileVariables operation True =
     (if extractVariables (op_fields operation) True = [] then []
      else ''('' @ join '', '' (map var_signature (extractVariables (op_fields operation) True)) @ '')'')"
    by (simp add: compileVariables_def Let_def)
qed

theorem only_present_variables_witness:
  "\<not> present ex_absent \<and>
   compileWithVariableValues ex_deep = Inr ex_deep_compiled \<and>
   (''email'', ex_absent) \<notin> set (extractVariables (op_fields ex_deep) True) \<and>
   \<not> present ex_null_var \<and>
   (''limit'', ex_null_var) \<notin> set (extractVariables (op_fields ex_deep) True) \<and>
   call_args [(''email'', AVar ex_absent), (''first'', AVar ex_null_var)] True = [] \<and>
   call_args [(''first'', AVal (JLit True ''5'')), (''after'', AVar ex_absent), (''tag'', AVal JNull)] True
     = ''(first: 5)'' \<and>
   compileFieldSelection (op_fields ex_deep) True =
     Inr [''  user(id: $id) {'', ''    posts(first: 5) {'', ''      title'', ''    }'', ''  }'',
          ''  viewer {'', ''    friends'', ''  }''] \<and>
   cq_variables ex_deep_compiled = [(''id'', JLit True ''1'')] \<and>
   compileVariables ex_deep True = ''($id: ID)''"
proof -
  have p: "\<not> present ex_absent"
    by (simp add: present_def ex_absent_def)
  have c: "compileWithVariableValues ex_deep = Inr ex_deep_compiled"
    by code_simp
  have s: "compileVariables ex_deep True = ''($id: ID)''"
    by code_simp
  have b: "map indent (spec_body_lines True (op_fields ex_deep)) =
     [''  user(id: $id) {'', ''    posts(first: 5) {'', ''      title'', ''    }'', ''  }'',
      ''  viewer {'', ''    friends'', ''  }'']"
    by code_simp
  obtain ls where ls: "compileFieldSelection (op_fields ex_deep) True = Inr ls"
    using c by (auto simp: compileWithVariableValues_def compile_def Let_def split: sum.splits)
  note t = only_present_variables
    [of ex_absent "''email''" "op_fields ex_deep" "''after''"
        "[(''first'', AVal (JLit True ''5'')), (''after'', AVar ex_absent), (''tag'', AVal JNull)]"
        ex_deep ex_deep_compiled]
  note u = only_present_variables
    [of ex_null_var "''limit''" "op_fields ex_deep" "''first''"
        "[(''email'', AVar ex_absent), (''first'', AVar ex_null_var)]" ex_deep ex_deep_compiled]
  have p': "\<not> present ex_null_var"
    by (simp add: present_def ex_null_var_def)
  from t p have "(''email'', ex_absent) \<notin> set (extractVariables (op_fields ex_deep) True)"
    by blast
  moreover from u p' have "(''limit'', ex_null_var) \<notin> set (extractVariables (op_fields ex_deep) True)"
    by blast
  moreover from u have "call_args [(''email'', AVar ex_absent), (''first'', AVar ex_null_var)] True = []"
    by (simp add: present_def ex_absent_def ex_null_var_def)
  moreover from t have "call_args [(''first'', AVal (JLit True ''5'')), (''after'', AVar ex_absent),
        (''tag'', AVal JNull)] True = ''(first: 5)''"
    by (simp add: present_def ex_absent_def)
  moreover from t ls have "ls = map indent (spec_body_lines True (op_fields ex_deep))"
    by blast
  ultimately show ?thesis
    using p p' c s b ls by (simp add: ex_deep_compiled_def)
qed

subsection \<open>Fields whose value is null or undefined\<close>

lemma raises_only_TypeError:
  "compileFieldSelection sel opv = Inl e \<Longrightarrow> e = TypeError"
  "flatMap_fields sel opv = Inl e \<Longrightarrow> e = TypeError"
  "compile_field field v opv = Inl e \<Longrightarrow> e = TypeError"
  by (induction sel opv and sel opv and field v opv
      rule: compileFieldSelection_flatMap_fields_compile_field.induct)
     (auto split: sum.splits option.splits)

lemma no_nullish_Cons: "no_nullish ((field, v) # rest) \<longleftrightarrow> no_nullish [(field, v)] \<and> no_nullish rest"
  by (cases v) simp_all

lemma returns_iff_no_nullish:
  "(\<exists>ls. compileFieldSelection sel opv = Inr ls) \<longleftrightarrow> no_nullish sel"
  "(\<exists>os. flatMap_fields sel opv = Inr os) \<longleftrightarrow> no_nullish sel"
  "(\<exists>os. compile_field field v opv = Inr os) \<longleftrightarrow> no_nullish [(field, v)]"
proof (induction sel opv and sel opv and field v opv
       rule: compileFieldSelection_flatMap_fields_compile_field.induct)
  case (1 sel opv)
  then show ?case by (auto split: sum.splits)
next
  case (3 field v rest opv)
  show ?case
  proof (cases "compile_field field v opv")
    case (Inl e)
    with "3.IH"(1) have "\<not> no_nullish [(field, v)]" by simp
    with Inl show ?thesis by (simp add: no_nullish_Cons [of field v rest])
  next
    case (Inr a)
    with "3.IH"(1) have h: "no_nullish [(field, v)]" by auto
    from "3.IH"(2) [OF Inr] have "(\<exists>os. flatMap_fields rest opv = Inr os) \<longleftrightarrow> no_nullish rest" .
    with Inr h show ?thesis
      by (auto simp: no_nullish_Cons [of field v rest] split: sum.splits)
  qed
next
  case (5 field args subselection opv)
  then show ?case by (auto split: option.splits sum.splits)
next
  case (8 field sub opv)
  then show ?case by (auto split: sum.splits)
qed simp_all

lemma nullish_member: "(f, v) \<in> set sel \<Longrightarrow> v = FNull \<or> v = FUndefined \<Longrightarrow> \<not> no_nullish sel"
  by (induction sel rule: no_nullish.induct) auto

text \<open>
  Claim C4 says that a field whose value is \<^verbatim>\<open>null\<close> or \<^verbatim>\<open>undefined\<close> is left out like a
  field whose value is \<^verbatim>\<open>false\<close>, and that the compilation succeeds. The code does
  otherwise: \<open>compileFieldSelection\<close>, \<open>compile\<close> and \<open>compileWithVariableValues\<close> raise a
  TypeError exactly when the selection has such a field, at the top level or at any
  depth that the compilation reaches, where the same selection with \<^verbatim>\<open>false\<close> in its place
  compiles.
\<close>

theorem nullish_field_raises:
  "((f, v) \<in> set (op_fields operation) \<and> (v = FNull \<or> v = FUndefined) \<longrightarrow>
      \<not> no_nullish (op_fields operation)) \<and>
   (\<not> no_nullish (op_fields operation) \<longrightarrow>
      compileFieldSelection (op_fields operation) opv = Inl TypeError \<and>
      compile operation opv = Inl TypeError \<and>
      compileWithVariableValues operation = Inl TypeError) \<and>
   (no_nullish (op_fields operation) \<longrightarrow> (\<exists>out. compile operation opv = Inr out))"
proof (intro conjI impI)
  assume "(f, v) \<in> set (op_fields operation) \<and> (v = FNull \<or> v = FUndefined)"
  then show "\<not> no_nullish (op_fields operation)"
    using nullish_member by blast
next
  assume n: "\<not> no_nullish (op_fields operation)"
  have r: "compileFieldSelection (op_fields operation) b = Inl TypeError" for b
  proof (cases "compileFieldSelection (op_fields operation) b")
    case (Inl e)
    then show ?thesis using raises_only_TypeError(1) by blast
  next
    case (Inr ls)
    with n returns_iff_no_nullish(1) [of "op_fields operation" b] show ?thesis by blast
  qed
  show "compileFieldSelection (op_fields operation) opv = Inl TypeError"
    by (rule r)
  show "compile operation opv = Inl TypeError"
    by (simp add: compile_def r del: compileFieldSelection.simps)
  show "compileWithVariableValues operation = Inl TypeError"
    by (simp add: compileWithVariableValues_def compile_def r del: compileFieldSelection.simps)
next
  assume "no_nullish (op_fields operation)"
  with returns_iff_no_nullish(1) [of "op_fields operation" opv]
  obtain ls where "compileFieldSelection (op_fields operation) opv = Inr ls" by blast
  then show "\<exists>out. compile operation opv = Inr out"
    by (simp add: compile_def del: compileFieldSelection.simps)
qed

theorem nullish_field_raises_witness:
  "(''a'', FNull) \<in> set (op_fields ex_null_field) \<and>
   \<not> no_nullish (op_fields ex_null_field) \<and>
   compile ex_null_field False = Inl TypeError \<and>
   compileWithVariableValues ex_null_field = Inl TypeError \<and>
   no_nullish (op_fields ex_false_field) \<and>
   compile ex_false_field False = Inr (''query  {'' @ newline @ ''  b'' @ newline @ ''}'')"
proof -
  have m: "(''a'', FNull) \<in> set (op_fields ex_null_field)"
    by (simp add: ex_null_field_def)
  have n: "no_nullish (op_fields ex_false_field)"
    by (simp add: ex_false_field_def)
  have c: "compile ex_false_field False = Inr (''query  {'' @ newline @ ''  b'' @ newline @ ''}'')"
    by code_simp
  from nullish_field_raises [of "''a''" FNull ex_null_field False] m
  have "\<not> no_nullish (op_fields ex_null_field)"
    "compile ex_null_field False = Inl TypeError"
    "compileWithVariableValues ex_null_field = Inl TypeError"
    by blast+
  with m n c show ?thesis by simp
qed

subsection \<open>Two Variables with the same explicit name\<close>

lemma explicit_pair:
  assumes "vname x = Some n" "vname y = Some n" "n \<noteq> ''__proto__''"
  shows "vo_entries (extract_args [(a, AVar x), (b, AVar y)] empty_object) = [(n, y)]"
    and "vo_entries (extract_args [(b, AVar y)] (extract_args [(a, AVar x)] empty_object)) = [(n, y)]"
    and "vo_entries (Object_assign (extract_args [(a, AVar x)] empty_object)
           (vo_entries (extract_args [(b, AVar y)] empty_object))) = [(n, y)]"
    and "vo_entries (extract_args [(a, AVar x)] empty_object) = [(n, x)]"
  using assms by (simp_all add: set_variable_def empty_object_def Object_assign_def)

text \<open>
  Claim C9 says that of two Variables with the same explicit name the later one in
  traversal order is kept, anywhere in a selection tree. The code does so when both are
  arguments of one field call, of two field calls of one selection, or when the later
  one stands in a nested selection: the entry under the name is overwritten, with no
  suffix (an entry whose Variable has an explicit name always stands under that name)
  and no error, and the keys of the extraction are distinct. When the later Variable
  stands in the sub-selection of a field call, the extraction does not visit it: the
  earlier Variable is the one kept, while the compiled body refers to the name at both
  places. And a Variable whose explicit name is \<^verbatim>\<open>__proto__\<close> is not kept at all: the
  assignment makes it the prototype of the extraction object and adds no entry.
\<close>

theorem duplicate_explicit_names:
  "(vname x = Some n \<and> vname y = Some n \<and> n \<noteq> ''__proto__'' \<longrightarrow>
      extractVariables [(f, FCall [(a, AVar x), (b, AVar y)] None)] False = [(n, y)] \<and>
      extractVariables [(f, FCall [(a, AVar x)] None), (g, FCall [(b, AVar y)] None)] False = [(n, y)] \<and>
      extractVariables [(f, FCall [(a, AVar x)] None), (g, FSel [(h, FCall [(b, AVar y)] None)])] False
        = [(n, y)] \<and>
      extractVariables [(f, FCall [(a, AVar x)] (Some [(g, FCall [(b, AVar y)] None)]))] False
        = [(n, x)]) \<and>
   (vname x = Some ''__proto__'' \<longrightarrow> extractVariables [(f, FCall [(a, AVar x)] None)] opv = []) \<and>
   (\<forall>(k, z) \<in> set (extractVariables sel opv). \<forall>m. vname z = Some m \<longrightarrow> k = m) \<and>
   distinct (map fst (extractVariables sel opv))"
proof (intro conjI impI)
  assume h: "vname x = Some n \<and> vname y = Some n \<and> n \<noteq> ''__proto__''"
  then have x: "vname x = Some n" and y: "vname y = Some n" and n: "n \<noteq> ''__proto__''"
    by simp_all
  show "extractVariables [(f, FCall [(a, AVar x), (b, AVar y)] None)] False = [(n, y)]"
    using explicit_pair(1) [OF x y n] by simp
  show "extractVariables [(f, FCall [(a, AVar x)] None), (g, FCall [(b, AVar y)] None)] False = [(n, y)]"
    using explicit_pair(2) [OF x y n] by simp
  show "extractVariables [(f, FCall [(a, AVar x)] None), (g, FSel [(h, FCall [(b, AVar y)] None)])] False
        = [(n, y)]"
    using explicit_pair(3) [OF x y n] by simp
  show "extractVariables [(f, FCall [(a, AVar x)] (Some [(g, FCall [(b, AVar y)] None)]))] False
        = [(n, x)]"
    using explicit_pair(4) [OF x y n] by simp
next
  assume "vname x = Some ''__proto__''"
  then show "extractVariables [(f, FCall [(a, AVar x)] None)] opv = []"
    by (simp add: set_variable_def empty_object_def Let_def)
next
  show "\<forall>(k, z) \<in> set (extractVariables sel opv). \<forall>m. vname z = Some m \<longrightarrow> k = m"
    using explicit_name_kept by blast
  show "distinct (map fst (extractVariables sel opv))"
    by (rule extract_distinct(1))
qed

theorem duplicate_explicit_names_witness:
  "vname ex_n1 = Some ''n'' \<and> vname ex_n2 = Some ''n'' \<and> ex_n1 \<noteq> ex_n2 \<and>
   extractVariables ex_dup_flat False = [(''n'', ex_n2)] \<and>
   extractVariables ex_dup False = [(''n'', ex_n2)] \<and>
   extractVariables ex_dup_subcall False = [(''n'', ex_n1)] \<and>
   compileWithVariableValues \<lparr>op_type = Query, op_fields = ex_dup_subcall, op_name = None, op_directives = None\<rparr>
     = Inr \<lparr>cq_query = ''query ($n: ID) {'' @ newline @ ''  a(x: $n) {'' @ newline @
                 ''    c(y: $n)'' @ newline @ ''  }'' @ newline @ ''}'',
             cq_variables = [(''n'', JLit True ''1'')]\<rparr> \<and>
   vname ex_proto = Some ''__proto__'' \<and>
   extractVariables [(''a'', FCall [(''x'', AVar ex_proto)] None)] False = []"
proof -
  have n: "vname ex_n1 = Some ''n''" "vname ex_n2 = Some ''n''"
    by (simp_all add: ex_n1_def ex_n2_def)
  then have h: "vname ex_n1 = Some ''n'' \<and> vname ex_n2 = Some ''n'' \<and> ''n'' \<noteq> ''__proto__''"
    by simp
  have ne: "ex_n1 \<noteq> ex_n2"
    by (simp add: ex_n1_def ex_n2_def)
  have p: "vname ex_proto = Some ''__proto__''"
    by (simp add: ex_proto_def)
  have c: "compileWithVariableValues \<lparr>op_type = Query, op_fields = ex_dup_subcall, op_name = None, op_directives = None\<rparr>
     = Inr \<lparr>cq_query = ''query ($n: ID) {'' @ newline @ ''  a(x: $n) {'' @ newline @
                 ''    c(y: $n)'' @ newline @ ''  }'' @ newline @ ''}'',
             cq_variables = [(''n'', JLit True ''1'')]\<rparr>"
    by code_simp
  note t = duplicate_explicit_names
    [of ex_n1 "''n''" ex_n2 "''a''" "''x''" "''y''" "''b''" "''c''" False "[]"]
  note d = t [THEN conjunct1, THEN mp, OF h]
  have d1: "extractVariables ex_dup_flat False = [(''n'', ex_n2)]"
    unfolding ex_dup_flat_def by (rule d [THEN conjunct2, THEN conjunct1])
  have d2: "extractVariables ex_dup False = [(''n'', ex_n2)]"
    unfolding ex_dup_def by (rule d [THEN conjunct2, THEN conjunct2, THEN conjunct1])
  note d' = duplicate_explicit_names
    [of ex_n1 "''n''" ex_n2 "''a''" "''x''" "''y''" "''c''" "''c''" False "[]", THEN conjunct1, THEN mp, OF h]
  have d3: "extractVariables ex_dup_subcall False = [(''n'', ex_n1)]"
    unfolding ex_dup_subcall_def by (rule d' [THEN conjunct2, THEN conjunct2, THEN conjunct2])
  note u = duplicate_explicit_names
    [of ex_proto "''n''" ex_proto "''a''" "''x''" "''x''" "''a''" "''a''" False "[]"]
  have d4: "extractVariables [(''a'', FCall [(''x'', AVar ex_proto)] None)] False = []"
    by (rule u [THEN conjunct2, THEN conjunct1, THEN mp, OF p])
  from n ne d1 d2 d3 c p d4 show ?thesis
    by (intro conjI)
qed

subsection \<open>Two Variables with the same implicit name\<close>

lemma digits_one: "digits (Suc 0) = ''1''"
  by (simp add: digits.simps digit_char_def)

lemma prototype_name_last: "k \<in> set Object_prototype_names \<Longrightarrow> \<not> is_decimal (last k)"
  by (auto simp: Object_prototype_names_def is_decimal_def)

lemma suffixed_not_inherited: "a @ digits k \<notin> set Object_prototype_names"
proof
  assume "a @ digits k \<in> set Object_prototype_names"
  then have "\<not> is_decimal (last (a @ digits k))"
    by (rule prototype_name_last)
  moreover have "is_decimal (last (digits k))"
    using digits_decimal [of k] digits_nonempty [of k] by (simp add: list_all_iff)
  ultimately show False
    using digits_nonempty [of k] by simp
qed

lemma nextName_first: "a \<notin> set Object_prototype_names \<Longrightarrow> nextName empty_object a = a"
  by (simp add: nextName_def truthy_at_def inherited_truthy_def empty_object_def)

lemma next_count_one:
  "a @ ''1'' \<notin> fst ` set entries \<Longrightarrow> next_count \<lparr>vo_entries = entries, vo_proto = None\<rparr> a (Suc 0) = Suc 0"
  using suffixed_not_inherited [of a "Suc 0"]
  by (subst next_count.simps) (simp add: truthy_at_def inherited_truthy_def digits_one)

lemma nextName_second: "nextName \<lparr>vo_entries = [(a, x)], vo_proto = None\<rparr> a = a @ ''1''"
  using next_count_one [of a "[(a, x)]"] by (simp add: nextName_def truthy_at_def digits_one)

lemma nextName_inherited:
  "a \<in> set Object_prototype_names \<Longrightarrow> nextName empty_object a = a @ ''1''"
  using next_count_one [of a "[]"]
  by (simp add: nextName_def truthy_at_def inherited_truthy_def empty_object_def digits_one)

lemma implicit_pair:
  assumes "vname x = None" "vname y = None" "a \<notin> set Object_prototype_names"
  shows "vo_entries (extract_args [(a, AVar y)] (extract_args [(a, AVar x)] empty_object))
           = [(a, x), (a @ ''1'', y)]"
    and "vo_entries (Object_assign (extract_args [(a, AVar x)] empty_object)
           (vo_entries (extract_args [(a, AVar y)] empty_object))) = [(a, y)]"
proof -
  from assms(3) have ne: "a \<noteq> ''__proto__''" "a @ ''1'' \<noteq> ''__proto__''"
    by (auto simp: Object_prototype_names_def)
  have first: "extract_args [(a, AVar z)] empty_object = \<lparr>vo_entries = [(a, z)], vo_proto = None\<rparr>"
    if "vname z = None" for z
    using that ne assms(3) by (simp add: nextName_first set_variable_def) (simp add: empty_object_def)
  show "vo_entries (extract_args [(a, AVar y)] (extract_args [(a, AVar x)] empty_object))
           = [(a, x), (a @ ''1'', y)]"
    using assms ne by (simp add: first nextName_second set_variable_def del: extract_args.simps)
      (simp add: nextName_second set_variable_def)
  show "vo_entries (Object_assign (extract_args [(a, AVar x)] empty_object)
           (vo_entries (extract_args [(a, AVar y)] empty_object))) = [(a, y)]"
    using assms ne by (simp add: first Object_assign_def set_variable_def del: extract_args.simps)
qed

text \<open>
  Claim C3 says that two Variables that are both implicitly named \<^verbatim>\<open>id\<close>, anywhere in a
  tree, end as \<^verbatim>\<open>id\<close> and \<^verbatim>\<open>id1\<close>. For an ordinary name of the argument the code does so
  for two field calls of the same selection: the second Variable gets the name of its
  argument followed by \<^verbatim>\<open>1\<close>. When the second field call stands in a nested selection,
  the nested extraction starts from an empty object and \<^verbatim>\<open>Object.assign\<close> overwrites the
  first entry: one name is left, with the second Variable. The sub-selection of a field
  call adds nothing to the extraction: a Variable among the arguments of a field call in
  it is not collected, while the compiled body refers to it. And an argument named as a
  property of \<^verbatim>\<open>Object.prototype\<close> is taken for a collision from the start: its first
  Variable is stored under the name followed by \<^verbatim>\<open>1\<close>, not under the name.
\<close>

theorem implicit_names_across_levels:
  "(vname x = None \<and> vname y = None \<and> ordinary_name a \<longrightarrow>
      extractVariables [(f, FCall [(a, AVar x)] None), (g, FCall [(a, AVar y)] None)] False
        = [(a, x), (a @ ''1'', y)] \<and>
      extractVariables [(f, FCall [(a, AVar x)] None), (g, FSel [(h, FCall [(a, AVar y)] None)])] False
        = [(a, y)]) \<and>
   extractVariables [(f, FCall args (Some sub))] opv = extractVariables [(f, FCall args None)] opv \<and>
   (vname x = None \<and> a \<in> set Object_prototype_names \<longrightarrow>
      extractVariables [(f, FCall [(a, AVar x)] None)] False = [(a @ ''1'', x)])"
proof (intro conjI impI)
  assume "vname x = None \<and> vname y = None \<and> ordinary_name a"
  then have x: "vname x = None" and y: "vname y = None" and a: "a \<notin> set Object_prototype_names"
    by (simp_all add: ordinary_name_def)
  show "extractVariables [(f, FCall [(a, AVar x)] None), (g, FCall [(a, AVar y)] None)] False
        = [(a, x), (a @ ''1'', y)]"
    using implicit_pair(1) [OF x y a] by simp
  show "extractVariables [(f, FCall [(a, AVar x)] None), (g, FSel [(h, FCall [(a, AVar y)] None)])] False
        = [(a, y)]"
    using implicit_pair(2) [OF x y a] by simp
next
  show "extractVariables [(f, FCall args (Some sub))] opv = extractVariables [(f, FCall args None)] opv"
    by simp
next
  assume h: "vname x = None \<and> a \<in> set Object_prototype_names"
  then have "a @ ''1'' \<noteq> ''__proto__''"
    using suffixed_not_inherited [of a "Suc 0"] by (auto simp: digits_one Object_prototype_names_def)
  with h show "extractVariables [(f, FCall [(a, AVar x)] None)] False = [(a @ ''1'', x)]"
    by (simp add: nextName_inherited set_variable_def) (simp add: empty_object_def)
qed

theorem implicit_names_across_levels_witness:
  "vname ex_id1 = None \<and> vname ex_id2 = None \<and> ordinary_name ''id'' \<and>
   extractVariables ex_flat False = [(''id'', ex_id1), (''id1'', ex_id2)] \<and>
   extractVariables ex_nested False = [(''id'', ex_id2)] \<and>
   extractVariables ex_subcall False = [(''id'', ex_id1)] \<and>
   compileWithVariableValues \<lparr>op_type = Query, op_fields = ex_nested, op_name = None, op_directives = None\<rparr>
     = Inr \<lparr>cq_query = ''query ($id: ID) {'' @ newline @ ''  a(id: $id)'' @ newline @ ''  b {'' @ newline @
                 ''    c(id: $id)'' @ newline @ ''  }'' @ newline @ ''}'',
             cq_variables = [(''id'', JLit True ''2'')]\<rparr> \<and>
   compileWithVariableValues \<lparr>op_type = Query, op_fields = ex_subcall, op_name = None, op_directives = None\<rparr>
     = Inr \<lparr>cq_query = ''query ($id: ID) {'' @ newline @ ''  a(id: $id) {'' @ newline @
                 ''    c(first: $first)'' @ newline @ ''  }'' @ newline @ ''}'',
             cq_variables = [(''id'', JLit True ''1'')]\<rparr> \<and>
   ''toString'' \<in> set Object_prototype_names \<and>
   extractVariables [(''a'', FCall [(''toString'', AVar ex_id1)] None)] False = [(''toString1'', ex_id1)] \<and>
   extractVariables ex_inherited False = [(''toString1'', ex_id1), (''toString2'', ex_id2)]"
proof -
  have n: "vname ex_id1 = None" "vname ex_id2 = None"
    by (simp_all add: ex_id1_def ex_id2_def)
  have o: "ordinary_name ''id''"
    by code_simp
  have i: "''toString'' \<in> set Object_prototype_names"
    by code_simp
  from n o have h: "vname ex_id1 = None \<and> vname ex_id2 = None \<and> ordinary_name ''id''"
    by simp
  note t = implicit_names_across_levels
    [of ex_id1 ex_id2 "''id''" "''a''" "''b''" "''c''" "[(''id'', AVar ex_id1)]"
        "[(''c'', FCall [(''first'', AVar ex_id2)] None)]" False]
  note d = t [THEN conjunct1, THEN mp, OF h]
  have d1: "extractVariables ex_flat False = [(''id'', ex_id1), (''id1'', ex_id2)]"
    unfolding ex_flat_def using d [THEN conjunct1] by simp
  have d2: "extractVariables ex_nested False = [(''id'', ex_id2)]"
    unfolding ex_nested_def by (rule d [THEN conjunct2])
  have "extractVariables ex_subcall False = extractVariables [(''a'', FCall [(''id'', AVar ex_id1)] None)] False"
    unfolding ex_subcall_def by (rule t [THEN conjunct2, THEN conjunct1])
  also have "\<dots> = [(''id'', ex_id1)]"
    by code_simp
  finally have d3: "extractVariables ex_subcall False = [(''id'', ex_id1)]" .
  have c1: "compileWithVariableValues \<lparr>op_type = Query, op_fields = ex_nested, op_name = None, op_directives = None\<rparr>
     = Inr \<lparr>cq_query = ''query ($id: ID) {'' @ newline @ ''  a(id: $id)'' @ newline @ ''  b {'' @ newline @
                 ''    c(id: $id)'' @ newline @ ''  }'' @ newline @ ''}'',
             cq_variables = [(''id'', JLit True ''2'')]\<rparr>"
    by code_simp
  have c2: "compileWithVariableValues \<lparr>op_type = Query, op_fields = ex_subcall, op_name = None, op_directives = None\<rparr>
     = Inr \<lparr>cq_query = ''query ($id: ID) {'' @ newline @ ''  a(id: $id) {'' @ newline @
                 ''    c(first: $first)'' @ newline @ ''  }'' @ newline @ ''}'',
             cq_variables = [(''id'', JLit True ''1'')]\<rparr>"
    by code_simp
  note u = implicit_names_across_levels
    [of ex_id1 ex_id2 "''toString''" "''a''" "''b''" "''c''" "[]" "[]" False]
  from n i have hi: "vname ex_id1 = None \<and> ''toString'' \<in> set Object_prototype_names"
    by simp
  have d4: "extractVariables [(''a'', FCall [(''toString'', AVar ex_id1)] None)] False = [(''toString1'', ex_id1)]"
    using u [THEN conjunct2, THEN conjunct2, THEN mp, OF hi] by simp
  have d5: "extractVariables ex_inherited False = [(''toString1'', ex_id1), (''toString2'', ex_id2)]"
    by code_simp
  from n o d1 d2 d3 c1 c2 i d4 d5 show ?thesis
    by (intro conjI)
qed

subsection \<open>The signature and the returned variables\<close>









subsection \<open>Selections without field calls\<close>

lemma plain_selection_lines:
  "no_calls sel \<Longrightarrow> compileFieldSelection sel opv = Inr ls \<Longrightarrow> ls = map indent (spec_lines sel)"
  "no_calls sel \<Longrightarrow> flatMap_fields sel opv = Inr os \<Longrightarrow> truthy_lines os = spec_lines sel"
  "no_calls [(field, v)] \<Longrightarrow> compile_field field v opv = Inr os \<Longrightarrow> truthy_lines os = spec_lines [(field, v)]"
proof (induction sel opv and sel opv and field v opv arbitrary: ls and os and os
       rule: compileFieldSelection_flatMap_fields_compile_field.induct)
  case (1 sel opv)
  then show ?case by (auto split: sum.splits)
next
  case (2 opv)
  then show ?case by (simp add: truthy_lines_simps)
next
  case (3 field v rest opv)
  from "3.prems"(2) obtain a b where a: "compile_field field v opv = Inr a"
    and b: "flatMap_fields rest opv = Inr b" and os: "os = a @ b"
    by (auto split: sum.splits)
  from "3.prems"(1) have nc: "no_calls [(field, v)]" "no_calls rest"
    by (cases v; simp)+
  have "truthy_lines a = spec_lines [(field, v)]"
    using nc(1) a by (rule "3.IH"(1))
  moreover have "truthy_lines b = spec_lines rest"
    using a nc(2) b by (rule "3.IH"(2))
  moreover have "spec_lines ((field, v) # rest) = spec_lines [(field, v)] @ spec_lines rest"
    by (cases v) simp_all
  ultimately show ?case
    using os by (simp add: truthy_lines_append)
next
  case (4 field b opv)
  then show ?case by (auto simp: truthy_lines_simps)
next
  case (5 field args subselection opv)
  then show ?case by simp
next
  case (6 field opv)
  then show ?case by simp
next
  case (7 field opv)
  then show ?case by simp
next
  case (8 field sub opv)
  from "8.prems"(2) obtain ls where ls: "compileFieldSelection sub opv = Inr ls"
    and os: "os = [Some (field @ '' {'')] @ map Some ls @ [Some ''}'']"
    by (auto split: sum.splits)
  from "8.prems"(1) have "no_calls sub" by simp
  from "8.IH" [OF this ls] have "ls = map indent (spec_lines sub)" .
  with os show ?case
    by (simp add: truthy_lines_simps truthy_lines_append truthy_lines_indented)
qed

lemma no_calls_no_variables: "no_calls sel \<Longrightarrow> traversed_args sel = []"
  by (induction sel rule: no_calls.induct) simp_all

lemma no_calls_extract:
  fixes opv :: bool
  shows "no_calls sel \<Longrightarrow> extract_fields sel empty_object = empty_object"
    and "no_calls sel \<Longrightarrow> extract_fields sel vars = vars"
  by (induction sel opv and sel vars rule: extractVariables_extract_fields.induct)
     (simp_all add: Object_assign_def empty_object_def)

text \<open>
  Claim C5. For a selection with no field call at any depth, the document has no variable
  signature, and the output of \<open>compile\<close>, whenever it returns one, is the operation type,
  name and directives followed by the braces around exactly the lines \<open>spec_lines\<close>: the
  names mapped to \<^verbatim>\<open>true\<close>, each nested selection between its parent's name with an
  opening brace and a closing brace, one level deeper. \<open>compile\<close> does return when the
  selection has no field whose value is \<^verbatim>\<open>null\<close> or \<^verbatim>\<open>undefined\<close>.
\<close>

theorem compile_plain_selection:
  assumes "no_calls (op_fields operation)"
  shows "compileVariables operation opv = [] \<and>
         (\<forall>out. compile operation opv = Inr out \<longrightarrow>
            out = optype_text (op_type operation) @ '' '' @ name_text operation @ directives_text operation @
                  '' {'' @ newline @ join newline (map indent (spec_lines (op_fields operation))) @ newline @ ''}'') \<and>
         (no_nullish (op_fields operation) \<longrightarrow> (\<exists>out. compile operation opv = Inr out))"
proof (intro conjI allI impI)
  show sig: "compileVariables operation opv = []"
    using no_calls_extract(1) [OF assms] by (simp add: compileVariables_def Let_def empty_object_def)
  fix out assume "compile operation opv = Inr out"
  then obtain ls where ls: "compileFieldSelection (op_fields operation) opv = Inr ls"
    and out: "out = optype_text (op_type operation) @ '' '' @ name_text operation @
                compileVariables operation opv @ directives_text operation @
                '' {'' @ newline @ join newline ls @ newline @ ''}''"
    by (auto simp: compile_def Let_def split: sum.splits)
  from plain_selection_lines(1) [OF assms ls] out sig
  show "out = optype_text (op_type operation) @ '' '' @ name_text operation @ directives_text operation @
                  '' {'' @ newline @ join newline (map indent (spec_lines (op_fields operation))) @ newline @ ''}''"
    by simp
next
  assume "no_nullish (op_fields operation)"
  with returns_iff_no_nullish(1) [of "op_fields operation" opv] obtain ls
    where "compileFieldSelection (op_fields operation) opv = Inr ls" by blast
  then show "\<exists>out. compile operation opv = Inr out"
    by (simp add: compile_def Let_def del: compileFieldSelection.simps)
qed

theorem compile_plain_selection_witness:
  "no_calls (op_fields ex_plain) \<and> no_nullish (op_fields ex_plain) \<and>
   compileVariables ex_plain False = [] \<and>
   spec_lines (op_fields ex_plain) = [''id'', ''owner {'', ''  name'', ''}''] \<and>
   compile ex_plain False =
     Inr (''query Widget {'' @ newline @ ''  id'' @ newline @ ''  owner {'' @ newline @
          ''    name'' @ newline @ ''  }'' @ newline @ ''}'')"
proof -
  have nc: "no_calls (op_fields ex_plain)" and nn: "no_nullish (op_fields ex_plain)"
    by (simp_all add: ex_plain_def)
  have sl: "spec_lines (op_fields ex_plain) = [''id'', ''owner {'', ''  name'', ''}'']"
    by (simp add: ex_plain_def indent_def)
  from compile_plain_selection [OF nc, of False] nn
  obtain out where out: "compile ex_plain False = Inr out" by blast
  with compile_plain_selection [OF nc, of False]
  have "out = optype_text (op_type ex_plain) @ '' '' @ name_text ex_plain @ directives_text ex_plain @
                  '' {'' @ newline @ join newline (map indent (spec_lines (op_fields ex_plain))) @ newline @ ''}''"
    by blast
  then have "out = ''query Widget {'' @ newline @ ''  id'' @ newline @ ''  owner {'' @ newline @
          ''    name'' @ newline @ ''  }'' @ newline @ ''}''"
    unfolding sl by (simp add: ex_plain_def optype_text_def name_text_def directives_text_def indent_def)
  with out nc nn sl compile_plain_selection [OF nc, of False] show ?thesis by simp
qed

section \<open>Properties of running an action\<close>

subsection \<open>Unexpected keys in the variables\<close>

lemma invalid_arguments_iff:
  "invalid_arguments action vars \<longleftrightarrow>
     hasAmbiguousIdentifier action \<and>
     (\<exists>k \<in> fst ` set vars. \<not> is_param_only action k \<and> k \<noteq> modelApiIdentifier action)"
  by (auto simp: invalid_arguments_def list_ex_iff)

text \<open>
  Claim C7, amended. The check of the keys is made for the actions whose descriptor has
  \<^verbatim>\<open>hasAmbiguousIdentifier\<close> set, and for no other. For such an action, a variables object
  with a top-level key that is neither a declared param-only variable nor the model
  identifier makes the callback throw an Error before \<^verbatim>\<open>runMutation\<close> is called: the result
  is the exception, and no variables are dispatched. For an action without the flag the
  callback never throws that Error, whatever the keys.
\<close>

theorem unexpected_key_rejected:
  "(hasAmbiguousIdentifier action \<and> (k, v) \<in> set vars \<and> \<not> is_param_only action k \<and>
      k \<noteq> modelApiIdentifier action \<longrightarrow>
      (\<exists>msg. useAction_variables action (Some vars) = Inl (Error msg))) \<and>
   (\<not> hasAmbiguousIdentifier action \<longrightarrow> (\<forall>msg. useAction_variables action given \<noteq> Inl (Error msg)))"
proof (intro conjI impI allI)
  assume "hasAmbiguousIdentifier action \<and> (k, v) \<in> set vars \<and> \<not> is_param_only action k \<and>
      k \<noteq> modelApiIdentifier action"
  then have "invalid_arguments action vars"
    by (force simp: invalid_arguments_iff)
  then show "\<exists>msg. useAction_variables action (Some vars) = Inl (Error msg)"
    by (simp add: useAction_variables_def)
next
  fix msg
  have w: "wrap_variables action vs nv \<noteq> Inl (Error msg)" for vs nv
    by (induction action vs nv rule: wrap_variables.induct)
       (auto split: option.splits json.splits)
  assume "\<not> hasAmbiguousIdentifier action"
  then have "\<not> invalid_arguments action vs" for vs
    by (simp add: invalid_arguments_def)
  then show "useAction_variables action given \<noteq> Inl (Error msg)"
    using w by (simp add: useAction_variables_def Let_def)
qed

theorem unexpected_key_rejected_witness:
  "hasAmbiguousIdentifier ex_ambiguous \<and> (''name'', JsStr ''hammer'') \<in> set ex_flat_variables \<and>
   \<not> is_param_only ex_ambiguous ''name'' \<and> ''name'' \<noteq> modelApiIdentifier ex_ambiguous \<and>
   useAction_variables ex_ambiguous (Some ex_flat_variables) =
     Inl (Error ''Invalid arguments found in variables. Did you mean to use ({ widget: { ... } })?'') \<and>
   \<not> hasAmbiguousIdentifier ex_create \<and>
   useAction_variables ex_create (Some ex_flat_variables) \<noteq>
     Inl (Error ''Invalid arguments found in variables. Did you mean to use ({ widget: { ... } })?'')"
proof -
  have h: "hasAmbiguousIdentifier ex_ambiguous \<and> (''name'', JsStr ''hammer'') \<in> set ex_flat_variables \<and>
      \<not> is_param_only ex_ambiguous ''name'' \<and> ''name'' \<noteq> modelApiIdentifier ex_ambiguous"
    by (simp add: ex_ambiguous_def ex_create_def ex_flat_variables_def is_param_only_def)
  have n: "\<not> hasAmbiguousIdentifier ex_create"
    by (simp add: ex_create_def)
  have e: "useAction_variables ex_ambiguous (Some ex_flat_variables) =
     Inl (Error ''Invalid arguments found in variables. Did you mean to use ({ widget: { ... } })?'')"
    by code_simp
  from unexpected_key_rejected [of ex_create "''name''" "JsStr ''hammer''" ex_flat_variables "Some ex_flat_variables"] n
  have "useAction_variables ex_create (Some ex_flat_variables) \<noteq>
     Inl (Error ''Invalid arguments found in variables. Did you mean to use ({ widget: { ... } })?'')"
    by blast
  moreover
  from unexpected_key_rejected [of ex_ambiguous "''name''" "JsStr ''hammer''" ex_flat_variables None] h
  have "\<exists>msg. useAction_variables ex_ambiguous (Some ex_flat_variables) = Inl (Error msg)"
    by blast
  ultimately show ?thesis using h n e by simp
qed

text \<open>
  The claim as stated, for every action under the model-input convention, fails: \<open>ex_create\<close>
  accepts model input, the key \<^verbatim>\<open>name\<close> is neither param-only nor the model identifier,
  and the call is not rejected but wrapped and dispatched.
\<close>

theorem unexpected_key_not_rejected:
  "acceptsModelInput ex_create \<and> (''name'', JsStr ''hammer'') \<in> set ex_flat_variables \<and>
   \<not> is_param_only ex_create ''name'' \<and> ''name'' \<noteq> modelApiIdentifier ex_create \<and>
   useAction_variables ex_create (Some ex_flat_variables) =
     Inr [(''widget'', JsObj [(''name'', JsStr ''hammer''), (''price'', JsNum 3)]),
          (''notify'', JsBool True), (''id'', JsStr ''7'')]"
  by code_simp

subsection \<open>Flat variables are nested under the model identifier\<close>

lemma is_param_only_declared: "is_param_only action k \<longleftrightarrow> k \<in> declared_param_only action"
  by (simp add: is_param_only_def declared_param_only_def split: option.splits)

lemma idVariable_gadget_id: "idVariable action \<noteq> None \<longleftrightarrow> has_gadget_id action"
  by (auto simp: idVariable_def has_gadget_id_def find_None_iff list_ex_iff)

lemma kept_at_top:
  "is_param_only action k \<or> (idVariable action \<noteq> None \<and> k = ''id'') \<longleftrightarrow> stays_top action k"
  using is_param_only_declared [of action k] idVariable_gadget_id [of action]
  by (auto simp: stays_top_def)

lemma wrap_step_top:
  "stays_top action k \<Longrightarrow>
   wrap_variables action ((k, v) # rest) nv = wrap_variables action rest (js_set nv k v)"
  using kept_at_top [of action k] by auto

lemma wrap_step_nested:
  "\<not> stays_top action k \<Longrightarrow> map_of nv (modelApiIdentifier action) = Some (JsObj inner) \<Longrightarrow>
   wrap_variables action ((k, v) # rest) nv =
     wrap_variables action rest (AList.update (modelApiIdentifier action) (JsObj (js_set inner k v)) nv)"
  using kept_at_top [of action k] by auto

lemma already_nested_iff:
  "already_nested action vars \<longleftrightarrow>
     nested_under_model action vars \<or>
     (map_of vars (modelApiIdentifier action) = None \<and> modelApiIdentifier action = ''__proto__'')"
proof (cases "map_of vars (modelApiIdentifier action)")
  case None
  then show ?thesis by (simp add: already_nested_def nested_under_model_def)
next
  case (Some j)
  then show ?thesis by (cases j) (simp_all add: already_nested_def nested_under_model_def)
qed

lemma wrap_variables_flat:
  assumes "distinct (map fst rest)"
    and "fst ` set rest \<inter> fst ` set inner = {}"
    and "fst ` set rest \<inter> fst ` set tops = {}"
    and "modelApiIdentifier action \<notin> fst ` set tops"
    and "stays_top action (modelApiIdentifier action) \<longrightarrow> modelApiIdentifier action \<notin> fst ` set rest"
    and "''__proto__'' \<notin> fst ` set rest"
  shows "wrap_variables action rest ((modelApiIdentifier action, JsObj inner) # tops) =
           Inr ((modelApiIdentifier action, JsObj (inner @ filter (\<lambda>(k, v). \<not> stays_top action k) rest)) #
                tops @ filter (\<lambda>(k, v). stays_top action k) rest)"
  using assms
proof (induction rest arbitrary: inner tops)
  case Nil
  then show ?case by simp
next
  case (Cons p rest)
  obtain k v where p: "p = (k, v)" by (cases p)
  let ?m = "modelApiIdentifier action"
  from Cons.prems p have d: "distinct (map fst rest)" and kr: "k \<notin> fst ` set rest"
    and ki: "k \<notin> fst ` set inner" and kt: "k \<notin> fst ` set tops"
    and kp: "k \<noteq> ''__proto__''" and rp: "''__proto__'' \<notin> fst ` set rest"
    by auto
  show ?case
  proof (cases "stays_top action k")
    case True
    with Cons.prems(5) p have km: "k \<noteq> ?m" by auto
    have u: "js_set ((?m, JsObj inner) # tops) k v = (?m, JsObj inner) # tops @ [(k, v)]"
      using km kt kp by (simp add: js_set_def update_fresh)
    have "wrap_variables action (p # rest) ((?m, JsObj inner) # tops)
        = wrap_variables action rest ((?m, JsObj inner) # tops @ [(k, v)])"
      unfolding p wrap_step_top [OF True] u ..
    also have "\<dots> = Inr ((?m, JsObj (inner @ filter (\<lambda>(k, v). \<not> stays_top action k) rest)) #
                (tops @ [(k, v)]) @ filter (\<lambda>(k, v). stays_top action k) rest)"
      using d Cons.prems kr km rp p by (intro Cons.IH) auto
    finally show ?thesis using True p by simp
  next
    case False
    have i: "js_set inner k v = inner @ [(k, v)]"
      using ki kp by (simp add: js_set_def update_fresh)
    have m: "map_of ((?m, JsObj inner) # tops) ?m = Some (JsObj inner)"
      by simp
    have "wrap_variables action (p # rest) ((?m, JsObj inner) # tops)
        = wrap_variables action rest ((?m, JsObj (inner @ [(k, v)])) # tops)"
      unfolding p wrap_step_nested [OF False m] i by simp
    also have "\<dots> = Inr ((?m, JsObj ((inner @ [(k, v)]) @ filter (\<lambda>(k, v). \<not> stays_top action k) rest)) #
                tops @ filter (\<lambda>(k, v). stays_top action k) rest)"
      using d Cons.prems kr rp p by (intro Cons.IH) auto
    finally show ?thesis using False p by simp
  qed
qed

lemma not_rejected:
  "hasAmbiguousIdentifier action \<longrightarrow>
     (\<forall>k \<in> fst ` set vars. k \<in> declared_param_only action \<or> k = modelApiIdentifier action) \<Longrightarrow>
   \<not> invalid_arguments action vars"
  by (auto simp: invalid_arguments_iff is_param_only_declared)

text \<open>
  Claim C8, amended. For an action that accepts model input, and a call that the check
  of C7 does not reject (the descriptor has no \<^verbatim>\<open>hasAmbiguousIdentifier\<close>, or every key of
  the variables is a declared param-only variable or the model identifier): when the
  variables object is not already nested under the model identifier, the dispatched
  variables are the model identifier with the object of the field values, followed by
  the declared param-only variables and by \<^verbatim>\<open>id\<close> if the action declares an \<^verbatim>\<open>id\<close> of type
  GadgetID, which stay at the top level, each group in the order of the call; an \<^verbatim>\<open>id\<close>
  of an action that declares none of that type is a field value like any other. (This
  for an object whose keys are distinct, none of them an array index or \<^verbatim>\<open>__proto__\<close>,
  and that does not have the model identifier as a key when that is itself one of the
  top-level names.) When the object is already nested, the variables are dispatched
  unchanged.
\<close>

theorem flat_variables_wrapped:
  assumes "acceptsModelInput action"
    and "hasAmbiguousIdentifier action \<longrightarrow>
           (\<forall>k \<in> fst ` set vars. k \<in> declared_param_only action \<or> k = modelApiIdentifier action)"
  shows "(distinct (map fst vars) \<and>
          (\<forall>k \<in> insert (modelApiIdentifier action) (fst ` set vars). plain_key k) \<and>
          \<not> nested_under_model action vars \<and>
          (stays_top action (modelApiIdentifier action) \<longrightarrow> modelApiIdentifier action \<notin> fst ` set vars) \<longrightarrow>
          useAction_variables action (Some vars) =
            Inr ((modelApiIdentifier action, JsObj (filter (\<lambda>(k, v). \<not> stays_top action k) vars)) #
                 filter (\<lambda>(k, v). stays_top action k) vars)) \<and>
         (nested_under_model action vars \<longrightarrow> useAction_variables action (Some vars) = Inr vars)"
proof (intro conjI impI)
  have v: "\<not> invalid_arguments action vars"
    using assms(2) by (rule not_rejected)
  {
    assume h: "distinct (map fst vars) \<and>
          (\<forall>k \<in> insert (modelApiIdentifier action) (fst ` set vars). plain_key k) \<and>
          \<not> nested_under_model action vars \<and>
          (stays_top action (modelApiIdentifier action) \<longrightarrow> modelApiIdentifier action \<notin> fst ` set vars)"
    then have np: "''__proto__'' \<notin> fst ` set vars" and mp: "modelApiIdentifier action \<noteq> ''__proto__''"
      by (auto simp: plain_key_def)
    from h mp have nn: "\<not> already_nested action vars"
      by (simp add: already_nested_iff)
    from h np have "wrap_variables action vars ((modelApiIdentifier action, JsObj []) # []) =
           Inr ((modelApiIdentifier action, JsObj ([] @ filter (\<lambda>(k, v). \<not> stays_top action k) vars)) #
                [] @ filter (\<lambda>(k, v). stays_top action k) vars)"
      by (intro wrap_variables_flat) auto
    with nn v assms(1) show "useAction_variables action (Some vars) =
            Inr ((modelApiIdentifier action, JsObj (filter (\<lambda>(k, v). \<not> stays_top action k) vars)) #
                 filter (\<lambda>(k, v). stays_top action k) vars)"
      by (simp add: useAction_variables_def)
  }
  assume "nested_under_model action vars"
  then have "already_nested action vars"
    by (simp add: already_nested_iff)
  with v assms(1) show "useAction_variables action (Some vars) = Inr vars"
    by (simp add: useAction_variables_def)
qed

theorem flat_variables_wrapped_witness:
  "acceptsModelInput ex_create \<and> \<not> hasAmbiguousIdentifier ex_create \<and> has_gadget_id ex_create \<and>
   distinct (map fst ex_flat_variables) \<and> \<not> nested_under_model ex_create ex_flat_variables \<and>
   \<not> stays_top ex_create (modelApiIdentifier ex_create) \<and>
   useAction_variables ex_create (Some ex_flat_variables) =
     Inr [(''widget'', JsObj [(''name'', JsStr ''hammer''), (''price'', JsNum 3)]),
          (''notify'', JsBool True), (''id'', JsStr ''7'')] \<and>
   acceptsModelInput ex_string_id \<and> \<not> has_gadget_id ex_string_id \<and>
   useAction_variables ex_string_id (Some ex_flat_variables) =
     Inr [(''widget'', JsObj [(''name'', JsStr ''hammer''), (''id'', JsStr ''7''), (''price'', JsNum 3)]),
          (''notify'', JsBool True)] \<and>
   acceptsModelInput ex_ambiguous \<and> hasAmbiguousIdentifier ex_ambiguous \<and>
   useAction_variables ex_ambiguous (Some ex_param_variables) =
     Inr [(''widget'', JsObj []), (''notify'', JsBool True)] \<and>
   nested_under_model ex_create ex_nested_variables \<and>
   useAction_variables ex_create (Some ex_nested_variables) = Inr ex_nested_variables"
proof -
  have a: "acceptsModelInput ex_create" "acceptsModelInput ex_string_id" "acceptsModelInput ex_ambiguous"
    by (simp_all add: ex_create_def ex_string_id_def ex_ambiguous_def)
  have f: "\<not> hasAmbiguousIdentifier ex_create" "\<not> hasAmbiguousIdentifier ex_string_id"
    "hasAmbiguousIdentifier ex_ambiguous"
    by (simp_all add: ex_create_def ex_string_id_def ex_ambiguous_def)
  have g: "has_gadget_id ex_create" "\<not> has_gadget_id ex_string_id"
    by (simp_all add: has_gadget_id_def ex_create_def ex_string_id_def)
  have k1: "hasAmbiguousIdentifier ex_create \<longrightarrow>
             (\<forall>k \<in> fst ` set vs. k \<in> declared_param_only ex_create \<or> k = modelApiIdentifier ex_create)" for vs
    using f(1) by simp
  have k2: "hasAmbiguousIdentifier ex_string_id \<longrightarrow>
             (\<forall>k \<in> fst ` set ex_flat_variables.
                 k \<in> declared_param_only ex_string_id \<or> k = modelApiIdentifier ex_string_id)"
    using f(2) by simp
  have k3: "hasAmbiguousIdentifier ex_ambiguous \<longrightarrow>
             (\<forall>k \<in> fst ` set ex_param_variables.
                 k \<in> declared_param_only ex_ambiguous \<or> k = modelApiIdentifier ex_ambiguous)"
    by (simp add: ex_param_variables_def declared_param_only_def ex_ambiguous_def ex_create_def)
  have h1: "distinct (map fst ex_flat_variables) \<and>
          (\<forall>k \<in> insert (modelApiIdentifier ex_create) (fst ` set ex_flat_variables). plain_key k) \<and>
          \<not> nested_under_model ex_create ex_flat_variables \<and>
          (stays_top ex_create (modelApiIdentifier ex_create) \<longrightarrow> modelApiIdentifier ex_create \<notin> fst ` set ex_flat_variables)"
    by code_simp
  have h2: "distinct (map fst ex_flat_variables) \<and>
          (\<forall>k \<in> insert (modelApiIdentifier ex_string_id) (fst ` set ex_flat_variables). plain_key k) \<and>
          \<not> nested_under_model ex_string_id ex_flat_variables \<and>
          (stays_top ex_string_id (modelApiIdentifier ex_string_id) \<longrightarrow> modelApiIdentifier ex_string_id \<notin> fst ` set ex_flat_variables)"
    by code_simp
  have h3: "distinct (map fst ex_param_variables) \<and>
          (\<forall>k \<in> insert (modelApiIdentifier ex_ambiguous) (fst ` set ex_param_variables). plain_key k) \<and>
          \<not> nested_under_model ex_ambiguous ex_param_variables \<and>
          (stays_top ex_ambiguous (modelApiIdentifier ex_ambiguous) \<longrightarrow> modelApiIdentifier ex_ambiguous \<notin> fst ` set ex_param_variables)"
    by code_simp
  have h4: "nested_under_model ex_create ex_nested_variables"
    by code_simp
  have r1: "(modelApiIdentifier ex_create, JsObj (filter (\<lambda>(k, v). \<not> stays_top ex_create k) ex_flat_variables)) #
              filter (\<lambda>(k, v). stays_top ex_create k) ex_flat_variables =
            [(''widget'', JsObj [(''name'', JsStr ''hammer''), (''price'', JsNum 3)]),
             (''notify'', JsBool True), (''id'', JsStr ''7'')]"
    by code_simp
  have r2: "(modelApiIdentifier ex_string_id,
               JsObj (filter (\<lambda>(k, v). \<not> stays_top ex_string_id k) ex_flat_variables)) #
              filter (\<lambda>(k, v). stays_top ex_string_id k) ex_flat_variables =
            [(''widget'', JsObj [(''name'', JsStr ''hammer''), (''id'', JsStr ''7''), (''price'', JsNum 3)]),
             (''notify'', JsBool True)]"
    by code_simp
  have r3: "(modelApiIdentifier ex_ambiguous,
               JsObj (filter (\<lambda>(k, v). \<not> stays_top ex_ambiguous k) ex_param_variables)) #
              filter (\<lambda>(k, v). stays_top ex_ambiguous k) ex_param_variables =
            [(''widget'', JsObj []), (''notify'', JsBool True)]"
    by code_simp
  have w1: "useAction_variables ex_create (Some ex_flat_variables) =
     Inr [(''widget'', JsObj [(''name'', JsStr ''hammer''), (''price'', JsNum 3)]),
          (''notify'', JsBool True), (''id'', JsStr ''7'')]"
    using flat_variables_wrapped [OF a(1) k1, THEN conjunct1, THEN mp, OF h1]
    unfolding r1 .
  have w2: "useAction_variables ex_string_id (Some ex_flat_variables) =
     Inr [(''widget'', JsObj [(''name'', JsStr ''hammer''), (''id'', JsStr ''7''), (''price'', JsNum 3)]),
          (''notify'', JsBool True)]"
    using flat_variables_wrapped [OF a(2) k2, THEN conjunct1, THEN mp, OF h2]
    unfolding r2 .
  have w3: "useAction_variables ex_ambiguous (Some ex_param_variables) =
     Inr [(''widget'', JsObj []), (''notify'', JsBool True)]"
    using flat_variables_wrapped [OF a(3) k3, THEN conjunct1, THEN mp, OF h3]
    unfolding r3 .
  have w4: "useAction_variables ex_create (Some ex_nested_variables) = Inr ex_nested_variables"
    by (rule flat_variables_wrapped [OF a(1) k1, THEN conjunct2, THEN mp, OF h4])
  from h1 have d: "distinct (map fst ex_flat_variables)" and nn: "\<not> nested_under_model ex_create ex_flat_variables"
    by simp_all
  have st: "\<not> stays_top ex_create (modelApiIdentifier ex_create)"
    by code_simp
  from a f g d nn st w1 w2 w3 h4 w4 show ?thesis
    by (intro conjI)
qed

text \<open>
  The claim as stated, for every action that accepts model input, fails: \<open>ex_ambiguous\<close>
  accepts model input and its descriptor has \<^verbatim>\<open>hasAmbiguousIdentifier\<close>; a flat variables
  object with field values is not wrapped but rejected with an Error, and nothing is
  dispatched.
\<close>

theorem ambiguous_flat_variables_rejected:
  "acceptsModelInput ex_ambiguous \<and> \<not> nested_under_model ex_ambiguous ex_flat_variables \<and>
   useAction_variables ex_ambiguous (Some ex_flat_variables) =
     Inl (Error ''Invalid arguments found in variables. Did you mean to use ({ widget: { ... } })?'')"
  by code_simp

subsection \<open>The processed result\<close>

lemma truthy_get: "truthy (get j path) \<Longrightarrow> truthy j"
  by (induction j path rule: get.induct) simp_all

lemma reported_errors:
  "js_prop mutationData ''errors'' = JsArr (e # es) \<Longrightarrow> truthy e \<Longrightarrow>
   truthy mutationData \<and> has_errors mutationData"
  by (cases mutationData) (simp_all add: has_errors_def)

text \<open>
  Claim C6, amended. When the payload has, under the mutation result field, an errors array
  whose first element is truthy (a non-empty array of error objects), the processed result
  has no data and the error that \<^verbatim>\<open>ErrorWrapper.forErrorsResponse\<close> makes of that array.
  When the mutation result is there and reports no errors, the data is the hydrated record
  of the model selection field for an action without a return type, and the value of
  \<^verbatim>\<open>result\<close> as it came for an action with one; the error is the response's own error,
  wrapped: none when the response has none.
\<close>

theorem processResult_cases:
  "(js_prop (get (ms_data result) (dataPath action)) ''errors'' = JsArr (e # es) \<and> truthy e \<longrightarrow>
      ahs_data (processResult fc fe resp hy result action) = DataNull \<and>
      ahs_error (processResult fc fe resp hy result action) =
        Some (fe (JsArr (e # es))
                 (case forMaybeCombinedError fc (ms_error result) of None \<Rightarrow> None | Some w \<Rightarrow> resp w))) \<and>
   (truthy (get (ms_data result) (dataPath action)) \<and> \<not> has_errors (get (ms_data result) (dataPath action)) \<longrightarrow>
      ahs_data (processResult fc fe resp hy result action) =
        (if hasReturnType action then DataResult (js_prop (get (ms_data result) (dataPath action)) ''result'')
         else DataRecord (hy result (js_prop (get (ms_data result) (dataPath action)) (modelSelectionField action)))) \<and>
      ahs_error (processResult fc fe resp hy result action) = forMaybeCombinedError fc (ms_error result) \<and>
      (ms_error result = None \<longrightarrow> ahs_error (processResult fc fe resp hy result action) = None))"
proof (intro conjI impI)
  let ?md = "get (ms_data result) (dataPath action)"
  assume "js_prop ?md ''errors'' = JsArr (e # es) \<and> truthy e"
  then have e: "js_prop ?md ''errors'' = JsArr (e # es)" and "truthy ?md \<and> has_errors ?md"
    using reported_errors by blast+
  then have t: "truthy ?md" "truthy (ms_data result)" "has_errors ?md"
    using truthy_get by blast+
  with e show "ahs_data (processResult fc fe resp hy result action) = DataNull"
    by (simp add: processResult_def Let_def has_errors_def)
  from e t show "ahs_error (processResult fc fe resp hy result action) =
        Some (fe (JsArr (e # es))
                 (case forMaybeCombinedError fc (ms_error result) of None \<Rightarrow> None | Some w \<Rightarrow> resp w))"
    by (simp add: processResult_def Let_def has_errors_def)
next
  let ?md = "get (ms_data result) (dataPath action)"
  assume h: "truthy ?md \<and> \<not> has_errors ?md"
  then have t: "truthy (ms_data result)"
    using truthy_get by blast
  with h show "ahs_data (processResult fc fe resp hy result action) =
        (if hasReturnType action then DataResult (js_prop ?md ''result'')
         else DataRecord (hy result (js_prop ?md (modelSelectionField action))))"
    by (auto simp: processResult_def Let_def has_errors_def)
  from h t show r: "ahs_error (processResult fc fe resp hy result action) = forMaybeCombinedError fc (ms_error result)"
    by (auto simp: processResult_def Let_def has_errors_def)
  assume "ms_error result = None"
  with r show "ahs_error (processResult fc fe resp hy result action) = None"
    by (simp add: forMaybeCombinedError_def)
qed

theorem processResult_cases_witness:
  "js_prop (get (ms_data ex_failed) (dataPath ex_create)) ''errors''
     = JsArr (JsObj [(''message'', JsStr ''name is required'')] # []) \<and>
   truthy (JsObj [(''message'', JsStr ''name is required'')]) \<and>
   ahs_data (processResult ex_forCombinedError ex_forErrorsResponse ex_response ex_hydrateRecord ex_failed ex_create)
     = DataNull \<and>
   ahs_error (processResult ex_forCombinedError ex_forErrorsResponse ex_response ex_hydrateRecord ex_failed ex_create)
     = Some ''errors response'' \<and>
   truthy (get (ms_data ex_created) (dataPath ex_create)) \<and>
   \<not> has_errors (get (ms_data ex_created) (dataPath ex_create)) \<and>
   ms_error ex_created = None \<and>
   ahs_data (processResult ex_forCombinedError ex_forErrorsResponse ex_response ex_hydrateRecord ex_created ex_create)
     = DataRecord (JsObj [(''id'', JsStr ''7'')]) \<and>
   ahs_error (processResult ex_forCombinedError ex_forErrorsResponse ex_response ex_hydrateRecord ex_created ex_create)
     = None"
proof -
  have p: "dataPath ex_create = [''createWidget'']"
    by (simp add: dataPath_def ex_create_def)
  have f: "js_prop (get (ms_data ex_failed) (dataPath ex_create)) ''errors''
     = JsArr (JsObj [(''message'', JsStr ''name is required'')] # [])"
    "truthy (JsObj [(''message'', JsStr ''name is required'')])"
    by (simp_all add: p ex_failed_def)
  have c: "truthy (get (ms_data ex_created) (dataPath ex_create))"
    "\<not> has_errors (get (ms_data ex_created) (dataPath ex_create))"
    "ms_error ex_created = None"
    by (simp_all add: p ex_created_def has_errors_def)
  have m: "modelSelectionField ex_create = ''widget''" "\<not> hasReturnType ex_create"
    by (simp_all add: ex_create_def)
  have r: "js_prop (get (ms_data ex_created) (dataPath ex_create)) ''widget'' = JsObj [(''id'', JsStr ''7'')]"
    by (simp add: p ex_created_def)
  note t1 = processResult_cases
    [of ex_failed ex_create "JsObj [(''message'', JsStr ''name is required'')]" "[]"
        ex_forCombinedError ex_forErrorsResponse ex_response ex_hydrateRecord]
  note t2 = processResult_cases
    [of ex_created ex_create "JsNull" "[]"
        ex_forCombinedError ex_forErrorsResponse ex_response ex_hydrateRecord]
  from t1 f have
    "ahs_data (processResult ex_forCombinedError ex_forErrorsResponse ex_response ex_hydrateRecord ex_failed ex_create)
       = DataNull"
    "ahs_error (processResult ex_forCombinedError ex_forErrorsResponse ex_response ex_hydrateRecord ex_failed ex_create)
       = Some ''errors response''"
    by (simp_all add: ex_forErrorsResponse_def)
  moreover from t2 c m r have
    "ahs_data (processResult ex_forCombinedError ex_forErrorsResponse ex_response ex_hydrateRecord ex_created ex_create)
       = DataRecord (JsObj [(''id'', JsStr ''7'')])"
    "ahs_error (processResult ex_forCombinedError ex_forErrorsResponse ex_response ex_hydrateRecord ex_created ex_create)
       = None"
    by (simp_all add: ex_hydrateRecord_def forMaybeCombinedError_def)
  ultimately show ?thesis using f c by simp
qed

text \<open>
  The claim as stated, that every response with a direct result carries the hydrated
  record, fails for an action with a return type: the data is \<^verbatim>\<open>mutationData.result\<close> as
  it came, and \<^verbatim>\<open>hydrateRecord\<close> is not called.
\<close>

theorem return_type_result_not_hydrated:
  "truthy (get (ms_data ex_reported) (dataPath ex_report)) \<and>
   \<not> has_errors (get (ms_data ex_reported) (dataPath ex_report)) \<and>
   ms_error ex_reported = None \<and>
   ahs_data (processResult ex_forCombinedError ex_forErrorsResponse ex_response ex_hydrateRecord ex_reported ex_report)
     = DataResult (JsStr ''done'') \<and>
   ahs_data (processResult ex_forCombinedError ex_forErrorsResponse ex_response ex_hydrateRecord ex_reported ex_report)
     \<noteq> DataRecord (ex_hydrateRecord ex_reported
                       (js_prop (get (ms_data ex_reported) (dataPath ex_report)) (modelSelectionField ex_report)))"
  by (simp add: processResult_def has_errors_def dataPath_def ex_reported_def ex_report_def ex_create_def
        forMaybeCombinedError_def)

end
